theory Spec2Isabelle
  imports Complex_Main "HOL-Library.Product_Lexorder"
begin

section \<open>Python values used by the heading pipeline\<close>

text \<open>
  Python floats (font sizes, page coordinates, scores) are modelled as exact rationals;
  rounding error of binary floating point is outside the model.  Python's unbounded
  integers are \<open>int\<close>.  A Python \<open>str\<close> of the script pipeline is a \<open>string\<close> whose
  characters stand for the code points 0..255 (one \<open>char\<close> per code point), which holds
  every marker the pipeline looks for, the copyright sign \<open>CHR 0xA9\<close> included.
\<close>

datatype py_error = KeyError | ZeroDivisionError | ValueError

definition cp :: "char \<Rightarrow> nat" where
  "cp c = of_char c"

text \<open>\<open>str.isspace\<close> on one character (also the class \<open>\s\<close> of \<open>re\<close>).\<close>

definition isspace :: "char \<Rightarrow> bool" where
  "isspace c = (let n = cp c in (9 \<le> n \<and> n \<le> 13) \<or> (28 \<le> n \<and> n \<le> 32) \<or> n = 133 \<or> n = 160)"

definition strip :: "string \<Rightarrow> string" where
  "strip s = rev (dropWhile isspace (rev (dropWhile isspace s)))"

text \<open>\<open>str.split()\<close> without arguments: the maximal runs of non-whitespace characters.\<close>

fun split_acc :: "string \<Rightarrow> string \<Rightarrow> string list" where
  "split_acc cur [] = (if cur = [] then [] else [cur])"
| "split_acc cur (c # cs) =
     (if isspace c then (if cur = [] then split_acc [] cs else cur # split_acc [] cs)
      else split_acc (cur @ [c]) cs)"

definition split :: "string \<Rightarrow> string list" where
  "split s = split_acc [] s"

definition isupper_char :: "char \<Rightarrow> bool" where
  "isupper_char c = (let n = cp c in (65 \<le> n \<and> n \<le> 90) \<or> (192 \<le> n \<and> n \<le> 214) \<or> (216 \<le> n \<and> n \<le> 222))"

definition islower_char :: "char \<Rightarrow> bool" where
  "islower_char c = (let n = cp c in (97 \<le> n \<and> n \<le> 122) \<or> n = 170 \<or> n = 181 \<or> n = 186
      \<or> (223 \<le> n \<and> n \<le> 246) \<or> (248 \<le> n \<and> n \<le> 255))"

definition lower_char :: "char \<Rightarrow> char" where
  "lower_char c = (if isupper_char c then char_of (cp c + 32) else c)"

definition lower :: "string \<Rightarrow> string" where
  "lower s = map lower_char s"

text \<open>\<open>str.isupper\<close>: no lowercase character and at least one uppercase one.\<close>

definition isupper :: "string \<Rightarrow> bool" where
  "isupper s = (list_all (\<lambda>c. \<not> islower_char c) s \<and> list_ex isupper_char s)"

text \<open>\<open>str.istitle\<close>: uppercase characters only after uncased ones, lowercase only after cased.\<close>

fun istitle_acc :: "bool \<Rightarrow> bool \<Rightarrow> string \<Rightarrow> bool" where
  "istitle_acc cased prev [] = cased"
| "istitle_acc cased prev (c # cs) =
     (if isupper_char c then (if prev then False else istitle_acc True True cs)
      else if islower_char c then (if \<not> prev then False else istitle_acc True True cs)
      else istitle_acc cased False cs)"

definition istitle :: "string \<Rightarrow> bool" where
  "istitle s = istitle_acc False False s"

definition isdigit_char :: "char \<Rightarrow> bool" where
  "isdigit_char c = (let n = cp c in (48 \<le> n \<and> n \<le> 57) \<or> n = 178 \<or> n = 179 \<or> n = 185)"

definition isdigit :: "string \<Rightarrow> bool" where
  "isdigit s = (s \<noteq> [] \<and> list_all isdigit_char s)"

fun startswith :: "string \<Rightarrow> string \<Rightarrow> bool" where
  "startswith s [] = True"
| "startswith [] (p # ps) = False"
| "startswith (c # cs) (p # ps) = (c = p \<and> startswith cs ps)"

definition endswith :: "string \<Rightarrow> string \<Rightarrow> bool" where
  "endswith s p = startswith (rev s) (rev p)"

text \<open>\<open>pat in s\<close>: \<open>pat\<close> occurs in \<open>s\<close> as a contiguous substring.\<close>

fun contains :: "string \<Rightarrow> string \<Rightarrow> bool" where
  "contains [] pat = (pat = [])"
| "contains (c # cs) pat = (startswith (c # cs) pat \<or> contains cs pat)"

text \<open>\<open>round(q, 2)\<close>: to the nearest hundredth, a tie going to the even one.\<close>

definition round2 :: "rat \<Rightarrow> rat" where
  "round2 q = (let s = q * 100; n = \<lfloor>s\<rfloor>; r = s - of_int n in
     of_int (if r < 1 / 2 then n else if 1 / 2 < r then n + 1 else if even n then n else n + 1) / 100)"

section \<open>Text blocks and the font analysis of \<open>main.py\<close>\<close>

record position =
  pos_x :: rat
  pos_y :: rat
  pos_width :: rat
  pos_height :: rat

record text_block =
  block_text :: string
  font_size :: rat
  font_name :: string
  is_bold :: bool
  page_number :: int
  block_position :: position

text \<open>
  \<open>collections.Counter\<close> over a list: a dictionary in insertion order, so an association
  list whose keys stand in the order of their first occurrence.
\<close>

fun counter_add :: "'a \<Rightarrow> ('a \<times> nat) list \<Rightarrow> ('a \<times> nat) list" where
  "counter_add x [] = [(x, 1)]"
| "counter_add x ((k, c) # kcs) =
     (if k = x then (k, c + 1) # kcs else (k, c) # counter_add x kcs)"

definition Counter :: "'a list \<Rightarrow> ('a \<times> nat) list" where
  "Counter xs = foldl (\<lambda>m x. counter_add x m) [] xs"

text \<open>
  Python's \<open>max(items, key=count)\<close>, which \<open>most_common(1)\<close> calls: the first item whose
  count is not exceeded; a later item replaces the current one only when strictly greater.
\<close>

fun first_max :: "('a \<times> nat) \<Rightarrow> ('a \<times> nat) list \<Rightarrow> ('a \<times> nat)" where
  "first_max best [] = best"
| "first_max best (kc # kcs) = (if snd best < snd kc then first_max kc kcs else first_max best kcs)"

text \<open>\<open>most_common(n)\<close>: the items by decreasing count, equal counts in insertion order.\<close>

definition most_common :: "nat \<Rightarrow> ('a \<times> nat) list \<Rightarrow> ('a \<times> nat) list" where
  "most_common n m = take n (sort_key (\<lambda>kc. - int (snd kc)) m)"

definition most_common_1 :: "('a \<times> nat) list \<Rightarrow> ('a \<times> nat) list" where
  "most_common_1 m = (case m of [] \<Rightarrow> [] | kc # kcs \<Rightarrow> [first_max kc kcs])"

record font_size_stats =
  stat_average :: rat
  stat_median :: rat
  stat_min :: rat
  stat_max :: rat
  stat_most_common :: rat

record font_analysis =
  body_font_size :: rat
  body_font_name :: string
  common_font_sizes :: "rat list"
  stats :: "font_size_stats option"

text \<open>
  \<open>_analyze_font_styles\<close>.  The empty statistics dictionary of the empty document is
  \<open>None\<close>.  The diagnostic entries \<open>total_unique_sizes\<close> and \<open>size_distribution\<close>, which no
  later stage reads, are left out.
\<close>

definition analyze_font_styles :: "text_block list \<Rightarrow> font_analysis" where
  "analyze_font_styles text_blocks =
     (if text_blocks = [] then
        \<lparr>body_font_size = 12, body_font_name = ''default'', common_font_sizes = [], stats = None\<rparr>
      else
        let font_sizes = map font_size text_blocks;
            font_names = map font_name text_blocks;
            font_size_counts = Counter font_sizes;
            font_name_counts = Counter font_names;
            most_common_size = (case most_common_1 font_size_counts of [] \<Rightarrow> 12 | kc # _ \<Rightarrow> fst kc);
            most_common_font = (case most_common_1 font_name_counts of [] \<Rightarrow> ''default'' | kc # _ \<Rightarrow> fst kc);
            avg_font_size = sum_list font_sizes / of_nat (length font_sizes);
            median_font_size = sort font_sizes ! (length font_sizes div 2)
        in \<lparr>body_font_size = most_common_size,
            body_font_name = most_common_font,
            common_font_sizes = map fst (most_common 5 font_size_counts),
            stats = Some \<lparr>stat_average = round2 avg_font_size,
                          stat_median = round2 median_font_size,
                          stat_min = foldl min (hd font_sizes) (tl font_sizes),
                          stat_max = foldl max (hd font_sizes) (tl font_sizes),
                          stat_most_common = most_common_size\<rparr>\<rparr>)"

text \<open>
  A text block as \<open>_extract_text_blocks\<close> builds it from a span of the reader, with the
  fields the examples below do not vary left at fixed values.
\<close>

definition span_block :: "string \<Rightarrow> rat \<Rightarrow> bool \<Rightarrow> int \<Rightarrow> rat \<Rightarrow> text_block" where
  "span_block t sz bold page y =
     \<lparr>block_text = t, font_size = sz, font_name = ''Helvetica'', is_bold = bold, page_number = page,
      block_position = \<lparr>pos_x = 72, pos_y = y, pos_width = 200, pos_height = sz\<rparr>\<rparr>"

section \<open>The candidate filter of \<open>main.py\<close>\<close>

definition noise_patterns :: "string list" where
  "noise_patterns = [''figure'', ''table'', ''page'', ''www.'', ''http'', ''@'',
     ''copyright'', [CHR 0xA9], ''et al.'', ''ibid'']"

text \<open>\<open>any(pattern in s for pattern in patterns)\<close>.\<close>

definition any_in :: "string list \<Rightarrow> string \<Rightarrow> bool" where
  "any_in patterns s = list_ex (contains s) patterns"

record heading_candidate =
  cand_block :: text_block
  heading_score :: rat

text \<open>
  The heading likelihood score of a block that passed the size test (lines 390 to 423 of
  \<open>main.py\<close>), accumulated as the source does, one statement after the other; \<open>t\<close> is
  the stripped text.  The division has been guarded by the caller.
\<close>

definition heading_likelihood :: "rat \<Rightarrow> text_block \<Rightarrow> string \<Rightarrow> rat" where
  "heading_likelihood body_size block t =
     (let word_count = int (length (split t));
          has_sentence_ending = (endswith t ''.'' \<or> endswith t ''!'' \<or> endswith t ''?'');
          is_all_caps = (isupper t \<and> length t > 3);
          starts_with_number =
            isdigit (filter (\<lambda>c. c \<noteq> CHR '' '') (takeWhile (\<lambda>c. c \<noteq> CHR ''.'') t));
          size_ratio = font_size block / body_size;
          s0 = 0;
          s1 = s0 + min 40 ((size_ratio - 1) * 20);
          s2 = (if is_bold block then s1 + 20 else s1);
          s3 = (if word_count \<le> 8 then s2 + (20 - of_int (word_count * 2)) else s2);
          s4 = (if pos_y (block_position block) < 200 then s3 + 10 else s3);
          s5 = (if \<not> has_sentence_ending then s4 + 5 else s4);
          s6 = (if is_all_caps \<and> length t < 50 then s5 + 10 else s5);
          s7 = (if starts_with_number then s6 + 8 else s6)
      in s7)"

text \<open>
  The body of the loop of \<open>_filter_heading_candidates\<close> for one block: \<open>Inr None\<close> when
  the block is skipped, \<open>Inr (Some c)\<close> when the copy \<open>c\<close> of the block is appended, and the
  error of the division by a zero body size, which a block reaches only after the
  length, noise and size tests.
\<close>

definition filter_block :: "rat \<Rightarrow> rat \<Rightarrow> text_block \<Rightarrow> py_error + heading_candidate option" where
  "filter_block body_size avg_font_size block =
     (let t = strip (block_text block);
          fs = font_size block;
          bold = is_bold block
      in if length t < 3 \<or> length t > 200 then Inr None
         else if any_in noise_patterns (lower t) then Inr None
         else
           let size_threshold = max (body_size * (11 / 10)) (avg_font_size * (105 / 100));
               is_potential_heading =
                 (fs > size_threshold \<or> (bold \<and> fs \<ge> body_size * (9 / 10))
                  \<or> fs > avg_font_size * (13 / 10))
           in if \<not> is_potential_heading then Inr None
              else if body_size = 0 then Inl ZeroDivisionError
              else
                let score = heading_likelihood body_size block t
                in if score \<ge> 25
                   then Inr (Some \<lparr>cand_block = block, heading_score = round2 score\<rparr>)
                   else Inr None)"

fun filter_loop :: "rat \<Rightarrow> rat \<Rightarrow> text_block list \<Rightarrow> py_error + heading_candidate list" where
  "filter_loop body_size avg_font_size [] = Inr []"
| "filter_loop body_size avg_font_size (block # blocks) =
     (case filter_block body_size avg_font_size block of
        Inl e \<Rightarrow> Inl e
      | Inr r \<Rightarrow>
          (case filter_loop body_size avg_font_size blocks of
             Inl e \<Rightarrow> Inl e
           | Inr cs \<Rightarrow> Inr (case r of None \<Rightarrow> cs | Some c \<Rightarrow> c # cs)))"

text \<open>
  \<open>_filter_heading_candidates\<close>: the average is read from the statistics (a \<open>KeyError\<close>
  on the analysis of the empty document, which has none), the blocks are filtered and
  the survivors sorted, stably, by page and vertical position.
\<close>

definition document_order :: "text_block \<Rightarrow> int \<times> rat" where
  "document_order b = (page_number b, pos_y (block_position b))"

definition filter_heading_candidates ::
    "text_block list \<Rightarrow> font_analysis \<Rightarrow> py_error + heading_candidate list" where
  "filter_heading_candidates text_blocks fa =
     (case stats fa of
        None \<Rightarrow> Inl KeyError
      | Some st \<Rightarrow>
          (case filter_loop (body_font_size fa) (stat_average st) text_blocks of
             Inl e \<Rightarrow> Inl e
           | Inr cs \<Rightarrow> Inr (sort_key (\<lambda>c. document_order (cand_block c)) cs)))"

section \<open>The level classifier of \<open>main.py\<close>\<close>

datatype level = H1 | H2 | H3

record classification_scores =
  score_h1 :: int
  score_h2 :: int
  score_h3 :: int
  score_final :: int

record classified_heading =
  h_level :: level
  h_text :: string
  h_page :: int
  h_position :: position
  h_font_size :: rat
  h_is_bold :: bool
  h_heading_score :: rat
  h_size_ratio :: rat
  h_scores :: classification_scores

definition h1_patterns :: "string list" where
  "h1_patterns = [''abstract'', ''introduction'', ''conclusion'', ''summary'', ''overview'',
     ''background'', ''methodology'', ''results'', ''discussion'', ''references'',
     ''about'', ''experience'', ''education'', ''skills'', ''projects'', ''contact'',
     ''objective'', ''profile'', ''qualifications'', ''achievements'', ''awards'']"

definition h2_patterns :: "string list" where
  "h2_patterns = [''work experience'', ''employment history'', ''professional experience'',
     ''technical skills'', ''core competencies'', ''key skills'', ''expertise'',
     ''certifications'', ''publications'', ''research'', ''languages'',
     ''extracurricular'', ''activities'', ''volunteering'', ''interests'',
     ''tools'', ''technologies'', ''software'', ''platforms'']"

definition h3_patterns :: "string list" where
  "h3_patterns = [''programming languages'', ''frameworks'', ''databases'', ''operating systems'',
     ''web technologies'', ''mobile development'', ''cloud platforms'',
     ''project management'', ''soft skills'', ''leadership'', ''communication'']"

definition title_indicators :: "string list" where
  "title_indicators = [''university'', ''college'', ''institute'', ''company'', ''corporation'',
     ''ltd'', ''inc'', ''llc'', ''technologies'', ''systems'', ''solutions'']"

text \<open>The number of patterns of a list that occur in \<open>s\<close>: one increment of the loop each.\<close>

definition count_patterns :: "string list \<Rightarrow> string \<Rightarrow> int" where
  "count_patterns patterns s = int (length (filter (contains s) patterns))"

subsection \<open>The four regular expressions\<close>

text \<open>
  Each expression is anchored at the start and is a sequence of character classes that
  exclude one another (digits, the dot, whitespace), so the greedy match decides it and
  no backtracking can find another one.  A matcher returns the rest of the string.
\<close>

definition ascii_digit :: "char \<Rightarrow> bool" where
  "ascii_digit c = (48 \<le> cp c \<and> cp c \<le> 57)"

definition ascii_alpha :: "char \<Rightarrow> bool" where
  "ascii_alpha c = ((65 \<le> cp c \<and> cp c \<le> 90) \<or> (97 \<le> cp c \<and> cp c \<le> 122))"

definition roman_letter :: "char \<Rightarrow> bool" where
  "roman_letter c = (c \<in> set ''ivxlcIVXLC'')"

definition many1 :: "(char \<Rightarrow> bool) \<Rightarrow> string \<Rightarrow> string option" where
  "many1 P s = (if takeWhile P s = [] then None else Some (dropWhile P s))"

definition one :: "(char \<Rightarrow> bool) \<Rightarrow> string \<Rightarrow> string option" where
  "one P s = (case s of [] \<Rightarrow> None | c # cs \<Rightarrow> if P c then Some cs else None)"

definition opt_dot :: "string \<Rightarrow> string option" where
  "opt_dot s = (case s of [] \<Rightarrow> Some s | c # cs \<Rightarrow> if c = CHR ''.'' then Some cs else Some s)"

definition matches :: "string option \<Rightarrow> bool" where
  "matches r = (r \<noteq> None)"

text \<open>\<open>^[0-9]+\.?\s+\<close>\<close>
definition re_number :: "string \<Rightarrow> bool" where
  "re_number t = matches (Option.bind (Option.bind (many1 ascii_digit t) opt_dot) (many1 isspace))"

text \<open>\<open>^[0-9]+\.[0-9]+\.?\s+\<close>\<close>
definition re_number_number :: "string \<Rightarrow> bool" where
  "re_number_number t = matches (Option.bind (Option.bind (Option.bind (Option.bind
      (many1 ascii_digit t) (one (\<lambda>c. c = CHR ''.''))) (many1 ascii_digit)) opt_dot) (many1 isspace))"

text \<open>\<open>^[a-zA-Z][\)\.]\s+\<close>\<close>
definition re_letter :: "string \<Rightarrow> bool" where
  "re_letter t = matches (Option.bind (Option.bind
      (one ascii_alpha t) (one (\<lambda>c. c = CHR '')'' \<or> c = CHR ''.''))) (many1 isspace))"

text \<open>\<open>^[ivxlc]+\.?\s+\<close>, ignoring case\<close>
definition re_roman :: "string \<Rightarrow> bool" where
  "re_roman t = matches (Option.bind (Option.bind (many1 roman_letter t) opt_dot) (many1 isspace))"

subsection \<open>The scores of one candidate\<close>

text \<open>
  The three scores are kept as a triple \<open>(h1, h2, h3)\<close>; each group of statements of the
  source adds its points to it.
\<close>

type_synonym points = "int \<times> int \<times> int"

definition add_points :: "points \<Rightarrow> points \<Rightarrow> points" where
  "add_points p q = (case p of (a, b, c) \<Rightarrow> (case q of (d, e, f) \<Rightarrow> (a + d, b + e, c + f)))"

definition pattern_points :: "string \<Rightarrow> points" where
  "pattern_points text_lower =
     (25 * count_patterns h1_patterns text_lower,
      20 * count_patterns h2_patterns text_lower,
      15 * count_patterns h3_patterns text_lower)"

definition position_points :: "rat \<Rightarrow> points" where
  "position_points position_y =
     (if position_y < 150 then (20, 0, 0)
      else if position_y < 300 then (10, 15, 0)
      else if position_y < 500 then (0, 10, 5)
      else (0, 0, 10))"

definition length_points :: "int \<Rightarrow> points" where
  "length_points word_count =
     (if word_count = 1 then (15, 10, 0)
      else if word_count \<le> 3 then (10, 15, 5)
      else if word_count \<le> 6 then (0, 10, 10)
      else (0, 0, 5))"

definition size_points :: "rat \<Rightarrow> points" where
  "size_points size_ratio =
     (if size_ratio \<ge> 2 then (20, 0, 0)
      else if size_ratio \<ge> 16 / 10 then (15, 10, 0)
      else if size_ratio \<ge> 13 / 10 then (5, 15, 5)
      else if size_ratio \<ge> 11 / 10 then (0, 10, 10)
      else (0, 0, 15))"

definition bold_points :: "bool \<Rightarrow> points" where
  "bold_points bold = (if bold then (15, 15, 10) else (0, 0, 0))"

definition caps_points :: "string \<Rightarrow> points" where
  "caps_points t = (if isupper t \<and> length t > 2 then (20, 10, 0) else (0, 0, 0))"

definition numbering_points :: "string \<Rightarrow> points" where
  "numbering_points t =
     (if re_number t then (15, 20, 0)
      else if re_number_number t then (0, 25, 10)
      else if re_letter t then (0, 15, 20)
      else if re_roman t then (0, 10, 15)
      else (0, 0, 0))"

definition colon_points :: "string \<Rightarrow> points" where
  "colon_points t =
     (if CHR '':'' \<in> set t \<and> \<not> endswith t '':'' then (0, 10, 15)
      else if endswith t '':'' then (10, 20, 0)
      else (0, 0, 0))"

definition institution_points :: "string \<Rightarrow> points" where
  "institution_points text_lower = (if any_in title_indicators text_lower then (0, 15, 10) else (0, 0, 0))"

definition level_scores :: "rat \<Rightarrow> heading_candidate \<Rightarrow> points" where
  "level_scores size_ratio c =
     (let block = cand_block c;
          t = strip (block_text block);
          text_lower = lower t;
          word_count = int (length (split t))
      in add_points (add_points (add_points (add_points (add_points (add_points (add_points (add_points
           (pattern_points text_lower)
           (position_points (pos_y (block_position block))))
           (length_points word_count))
           (size_points size_ratio))
           (bold_points (is_bold block)))
           (caps_points t))
           (numbering_points t))
           (colon_points t))
           (institution_points text_lower))"

text \<open>
  The body of the loop of \<open>_classify_heading_levels\<close> for one candidate: the scores, the
  final classification and the record that is appended.  The size ratio divides by the
  body size.
\<close>

definition classify_block :: "rat \<Rightarrow> heading_candidate \<Rightarrow> py_error + classified_heading" where
  "classify_block body_size c =
     (let block = cand_block c;
          t = strip (block_text block);
          bold = is_bold block;
          word_count = int (length (split t))
      in if body_size = 0 then Inl ZeroDivisionError
         else
           let size_ratio = font_size block / body_size
           in case level_scores size_ratio c of (h1_score, h2_score, h3_score) \<Rightarrow>
             let max_score = max (max h1_score h2_score) h3_score;
                 lvl =
                   (if max_score = h1_score \<and> h1_score \<ge> 25 then H1
                    else if max_score = h2_score \<and> h2_score \<ge> 20 then H2
                    else if max_score = h3_score \<and> h3_score \<ge> 15 then H3
                    else if size_ratio \<ge> 15 / 10 \<or> (bold \<and> word_count \<le> 2) then H1
                    else if size_ratio \<ge> 12 / 10 \<or> (bold \<and> word_count \<le> 4) then H2
                    else H3)
             in Inr \<lparr>h_level = lvl, h_text = t, h_page = page_number block,
                     h_position = block_position block, h_font_size = font_size block,
                     h_is_bold = bold, h_heading_score = heading_score c,
                     h_size_ratio = round2 size_ratio,
                     h_scores = \<lparr>score_h1 = h1_score, score_h2 = h2_score,
                                  score_h3 = h3_score, score_final = max_score\<rparr>\<rparr>)"

fun classify_loop :: "rat \<Rightarrow> heading_candidate list \<Rightarrow> py_error + classified_heading list" where
  "classify_loop body_size [] = Inr []"
| "classify_loop body_size (c # cs) =
     (case classify_block body_size c of
        Inl e \<Rightarrow> Inl e
      | Inr h \<Rightarrow>
          (case classify_loop body_size cs of
             Inl e \<Rightarrow> Inl e
           | Inr hs \<Rightarrow> Inr (h # hs)))"

section \<open>The hierarchy refiner of \<open>main.py\<close>\<close>

text \<open>
  \<open>_refine_heading_hierarchy\<close> assigns to \<open>heading["level"]\<close> of the dictionaries its
  argument holds, and reads the level of the neighbours from the same dictionaries.  So
  the list is modelled as a list of references into a store: what the loop reads of the
  previous heading is what it has written there.
\<close>

type_synonym ref = nat
type_synonym store = "ref \<Rightarrow> classified_heading"

text \<open>One iteration of the loop, at index \<open>i\<close>.\<close>

definition refine_step :: "ref list \<Rightarrow> nat \<Rightarrow> store \<Rightarrow> store" where
  "refine_step headings i s =
     (let heading = s (headings ! i);
          current_level = h_level heading
      in if 0 < i \<and> i + 1 < length headings then
           let prev_level = h_level (s (headings ! (i - 1)));
               next_level = h_level (s (headings ! (i + 1)))
           in if current_level = H1 \<and> prev_level = H3 \<and> next_level = H3 then
                (if score_h2 (h_scores heading) \<ge> 15
                 then s(headings ! i := heading\<lparr>h_level := H2\<rparr>) else s)
              else if current_level = H3 \<and> prev_level = H2 \<and> next_level = H2 then
                (if score_h2 (h_scores heading) \<ge> score_h3 (h_scores heading)
                 then s(headings ! i := heading\<lparr>h_level := H2\<rparr>) else s)
              else s
         else s)"

text \<open>
  The function returns the list of references it was given (the early return) or a new
  list of the same references in the same order (\<open>refined_headings\<close>), and leaves the
  store updated.
\<close>

definition refine_heading_hierarchy :: "store \<Rightarrow> ref list \<Rightarrow> store \<times> ref list" where
  "refine_heading_hierarchy s headings =
     (if length headings \<le> 1 then (s, headings)
      else (fold (refine_step headings) [0..<length headings] s, headings))"

text \<open>Fresh dictionaries, one per element of a list, and the list read back from a store.\<close>

definition allocate :: "classified_heading list \<Rightarrow> store \<times> ref list" where
  "allocate hs = ((\<lambda>a. hs ! a), [0..<length hs])"

definition deref :: "store \<times> ref list \<Rightarrow> classified_heading list" where
  "deref sr = map (fst sr) (snd sr)"

definition heading_order :: "classified_heading \<Rightarrow> int \<times> rat" where
  "heading_order h = (h_page h, pos_y (h_position h))"

text \<open>\<open>_classify_heading_levels\<close>: classify, sort by page and position, refine.\<close>

definition classify_heading_levels ::
    "heading_candidate list \<Rightarrow> font_analysis \<Rightarrow> py_error + classified_heading list" where
  "classify_heading_levels heading_candidates fa =
     (if heading_candidates = [] then Inr []
      else case classify_loop (body_font_size fa) heading_candidates of
             Inl e \<Rightarrow> Inl e
           | Inr classified \<Rightarrow>
               (case allocate (sort_key heading_order classified) of
                  (s, refs) \<Rightarrow> Inr (deref (refine_heading_hierarchy s refs))))"

section \<open>The title selector of \<open>main.py\<close>\<close>

definition title_noise_patterns :: "string list" where
  "title_noise_patterns = [''page'', ''figure'', ''table'', ''abstract'', ''introduction'',
     ''www.'', ''http'', ''@'', ''copyright'', [CHR 0xA9]]"

text \<open>The largest element of a non-empty list, as \<open>max\<close> of a generator computes it.\<close>

definition list_max :: "rat list \<Rightarrow> rat" where
  "list_max xs = foldl max (hd xs) (tl xs)"

text \<open>The score of a block whose stripped text is \<open>t\<close> (lines 755 to 784).\<close>

definition title_score :: "text_block \<Rightarrow> string \<Rightarrow> rat" where
  "title_score block t =
     (let s0 = 0;
          s1 = s0 + min 40 (font_size block * 2);
          s2 = (if is_bold block then s1 + 20 else s1);
          s3 = (if page_number block = 1 then s2 + 20
                else if page_number block = 2 then s2 + 10 else s2);
          s4 = (if pos_y (block_position block) < 200 then s3 + 15
                else if pos_y (block_position block) < 400 then s3 + 10 else s3);
          word_count = int (length (split t));
          s5 = (if 2 \<le> word_count \<and> word_count \<le> 12
                then s4 + (15 - of_int \<bar>word_count - 6\<bar>) else s4);
          s6 = (if \<not> endswith t ''.'' \<and> \<not> (startswith t ''Fig'' \<or> startswith t ''Table'')
                then s5 + 10 else s5)
      in s6)"

text \<open>One iteration of the scoring loop on the state \<open>(best_title, best_score)\<close>.\<close>

definition title_step :: "string \<times> rat \<Rightarrow> text_block \<Rightarrow> string \<times> rat" where
  "title_step best block =
     (let t = strip (block_text block)
      in if length t < 5 \<or> length t > 150 then best
         else if any_in title_noise_patterns (lower t) then best
         else if title_score block t > snd best then (t, title_score block t)
         else best)"

definition identify_document_title :: "text_block list \<Rightarrow> string" where
  "identify_document_title text_blocks =
     (if text_blocks = [] then ''Untitled Document''
      else
        let title_candidates = filter (\<lambda>block. page_number block \<le> 2) text_blocks
        in if title_candidates = [] then ''Untitled Document''
           else
             let max_font_size = list_max (map font_size title_candidates);
                 largest_text_blocks =
                   filter (\<lambda>block. font_size block \<ge> max_font_size * (95 / 100)) title_candidates;
                 best = foldl title_step ('''', 0) largest_text_blocks;
                 best_title =
                   (if fst best = '''' \<and> largest_text_blocks \<noteq> []
                    then strip (block_text (hd largest_text_blocks)) else fst best)
             in if best_title \<noteq> '''' then best_title else ''Untitled Document'')"

section \<open>The outline of \<open>main.py\<close>\<close>

record final_heading =
  out_level :: level
  out_text :: string
  out_page :: int
  out_x :: rat
  out_y :: rat

record outline =
  outline_title :: string
  outline_headings :: "final_heading list"

definition final_of :: "classified_heading \<Rightarrow> final_heading" where
  "final_of h = \<lparr>out_level = h_level h, out_text = h_text h, out_page = h_page h,
                 out_x = pos_x (h_position h), out_y = pos_y (h_position h)\<rparr>"

text \<open>
  \<open>_extract_headings_from_blocks\<close>, without the \<open>analysis_metadata\<close> entry that
  \<open>save_result\<close> drops.  The limit of 20 headings is written into the source; the script
  reads no configuration.
\<close>

definition extract_headings_from_blocks :: "text_block list \<Rightarrow> py_error + outline" where
  "extract_headings_from_blocks text_blocks =
     (if text_blocks = [] then Inr \<lparr>outline_title = '''', outline_headings = []\<rparr>
      else
        let fa = analyze_font_styles text_blocks
        in case filter_heading_candidates text_blocks fa of
             Inl e \<Rightarrow> Inl e
           | Inr heading_candidates \<Rightarrow>
               (case classify_heading_levels heading_candidates fa of
                  Inl e \<Rightarrow> Inl e
                | Inr classified_headings \<Rightarrow>
                    Inr \<lparr>outline_title = identify_document_title text_blocks,
                         outline_headings = map final_of (take 20 classified_headings)\<rparr>))"

text \<open>The processing limits of \<open>src/utils/config.py\<close> and their defaults.\<close>

record processing_limits =
  max_file_size_mb :: int
  max_pages :: int
  max_processing_time_seconds :: int
  max_headings_per_document :: int
  max_text_blocks :: int

definition default_processing_limits :: processing_limits where
  "default_processing_limits =
     \<lparr>max_file_size_mb = 100, max_pages = 1000, max_processing_time_seconds = 300,
      max_headings_per_document = 50, max_text_blocks = 10000\<rparr>"

section \<open>The module pipeline: \<open>_identify_headings\<close> of \<open>docudots_module/core.py\<close>\<close>

record core_block =
  cb_text :: string
  cb_page :: int
  cb_font_size :: rat
  cb_font_flags :: int
  cb_bbox :: "rat \<times> rat \<times> rat \<times> rat"

record core_candidate =
  cc_level :: level
  cc_text :: string
  cc_page :: int
  cc_font_size :: rat
  cc_size_ratio :: rat
  cc_is_bold :: bool

record core_heading =
  ch_level :: level
  ch_text :: string
  ch_page :: int

text \<open>The one option of \<open>docudots_module/config.py\<close> that the function reads.\<close>

record config =
  MAX_HEADINGS_PER_DOCUMENT :: int

definition default_config :: config where
  "default_config = \<lparr>MAX_HEADINGS_PER_DOCUMENT = 50\<rparr>"

text \<open>Python's \<open>max(xs, key=f)\<close> on a non-empty sequence: the first maximal element.\<close>

fun max_by :: "('a \<Rightarrow> 'k::linorder) \<Rightarrow> 'a \<Rightarrow> 'a list \<Rightarrow> 'a" where
  "max_by f best [] = best"
| "max_by f best (x # xs) = (if f best < f x then max_by f x xs else max_by f best xs)"

text \<open>The slice \<open>xs[:m]\<close>, where a negative \<open>m\<close> counts from the end.\<close>

definition slice_to :: "int \<Rightarrow> 'a list \<Rightarrow> 'a list" where
  "slice_to m xs = (if 0 \<le> m then take (nat m) xs else take (nat (int (length xs) + m)) xs)"

text \<open>
  The body of the candidate loop for one block: skipped (\<open>None\<close>) when its text is the
  title or no rule makes it a heading.  Bit 4 of the font flags is the bold flag.
\<close>

definition core_candidate_of :: "string \<Rightarrow> rat \<Rightarrow> core_block \<Rightarrow> py_error + core_candidate option" where
  "core_candidate_of title body_text_size block =
     (if cb_text block = title then Inr None
      else if body_text_size = 0 then Inl ZeroDivisionError
      else
        let size_ratio = cb_font_size block / body_text_size;
            bold = ((cb_font_flags block div 16) mod 2 = 1);
            t = strip (cb_text block);
            is_short = (length (split t) \<le> 8);
            is_capitalized = (isupper t \<or> istitle t);
            mk = (\<lambda>lvl. \<lparr>cc_level = lvl, cc_text = t, cc_page = cb_page block,
                          cc_font_size = cb_font_size block, cc_size_ratio = size_ratio,
                          cc_is_bold = bold\<rparr>)
        in if size_ratio \<ge> 15 / 10 \<or> (size_ratio \<ge> 12 / 10 \<and> bold) then Inr (Some (mk H1))
           else if size_ratio \<ge> 115 / 100 \<or> (size_ratio \<ge> 105 / 100 \<and> bold)
                   \<or> (is_capitalized \<and> is_short) then Inr (Some (mk H2))
           else if bold \<and> is_short \<and> size_ratio \<ge> 95 / 100 then Inr (Some (mk H3))
           else Inr None)"

fun core_candidates :: "string \<Rightarrow> rat \<Rightarrow> core_block list \<Rightarrow> py_error + core_candidate list" where
  "core_candidates title body_text_size [] = Inr []"
| "core_candidates title body_text_size (block # blocks) =
     (case core_candidate_of title body_text_size block of
        Inl e \<Rightarrow> Inl e
      | Inr r \<Rightarrow>
          (case core_candidates title body_text_size blocks of
             Inl e \<Rightarrow> Inl e
           | Inr cs \<Rightarrow> Inr (case r of None \<Rightarrow> cs | Some c \<Rightarrow> c # cs)))"

text \<open>
  The body text size of \<open>_identify_headings\<close> (lines 263 to 270): the sizes are counted
  in a dictionary, which keeps its keys in the order of insertion, and \<open>max\<close> over the
  keys by count gives the first key of the highest count.  On an empty dictionary \<open>max\<close>
  raises \<open>ValueError\<close>.
\<close>

definition body_text_size :: "rat list \<Rightarrow> py_error + rat" where
  "body_text_size font_sizes =
     (let size_counts = foldl (\<lambda>m sz. counter_add sz m) [] font_sizes
      in case size_counts of
           [] \<Rightarrow> Inl ValueError
         | kc # kcs \<Rightarrow> Inr (fst (first_max kc kcs)))"

definition identify_headings :: "config \<Rightarrow> core_block list \<Rightarrow> py_error + string \<times> core_heading list" where
  "identify_headings cfg blocks =
     (if blocks = [] then Inr (''Untitled Document'', [])
      else
        case body_text_size (map cb_font_size blocks) of
          Inl e \<Rightarrow> Inl e
        | Inr body_size \<Rightarrow>
            let first_page_blocks = filter (\<lambda>b. cb_page b = 0) blocks;
                title = (case first_page_blocks of
                           [] \<Rightarrow> ''Untitled Document''
                         | b # bs \<Rightarrow> cb_text (max_by cb_font_size b bs))
            in case core_candidates title body_size blocks of
                 Inl e \<Rightarrow> Inl e
               | Inr heading_candidates \<Rightarrow>
                   let sorted = sort_key (\<lambda>c. (cc_page c, - cc_font_size c)) heading_candidates;
                       final_headings = slice_to (MAX_HEADINGS_PER_DOCUMENT cfg) sorted
                   in Inr (title,
                           map (\<lambda>h. \<lparr>ch_level = cc_level h, ch_text = cc_text h,
                                      ch_page = cc_page h\<rparr>) final_headings))"

section \<open>Text normalisation: the two \<open>multilingual.py\<close>\<close>

text \<open>
  Here a string is the list of its code points, since the scripts lie beyond code point
  255.  The tables of \<open>unicodedata\<close> (the normal forms and the general category) and the
  character classes of the script patterns as \<open>re.IGNORECASE\<close> reads them are not part of
  the repository; they are parameters of the model, gathered in a record.
\<close>

type_synonym ustr = "nat list"

record unicode_tables =
  nfc :: "ustr \<Rightarrow> ustr"
  nfkc :: "ustr \<Rightarrow> ustr"
  nfd :: "ustr \<Rightarrow> ustr"
  is_Mn :: "nat \<Rightarrow> bool"
  in_class_ignorecase :: "(nat \<times> nat) list \<Rightarrow> nat \<Rightarrow> bool"

text \<open>Whitespace as \<open>\s\<close> and \<open>str.strip\<close> read it on all of Unicode.\<close>

definition uspace :: "nat \<Rightarrow> bool" where
  "uspace n = ((9 \<le> n \<and> n \<le> 13) \<or> (28 \<le> n \<and> n \<le> 32) \<or> n = 133 \<or> n = 160 \<or> n = 5760
      \<or> (8192 \<le> n \<and> n \<le> 8202) \<or> n = 8232 \<or> n = 8233 \<or> n = 8239 \<or> n = 8287 \<or> n = 12288)"

definition ustrip :: "ustr \<Rightarrow> ustr" where
  "ustrip s = rev (dropWhile uspace (rev (dropWhile uspace s)))"

text \<open>\<open>re.sub(r'\s+', ' ', s)\<close>: every maximal run of whitespace becomes one space.\<close>

fun collapse_from :: "bool \<Rightarrow> ustr \<Rightarrow> ustr" where
  "collapse_from in_run [] = []"
| "collapse_from in_run (c # cs) =
     (if uspace c then (if in_run then collapse_from True cs else 32 # collapse_from True cs)
      else c # collapse_from False cs)"

definition collapse_whitespace :: "ustr \<Rightarrow> ustr" where
  "collapse_whitespace s = collapse_from False s"

definition in_class :: "(nat \<times> nat) list \<Rightarrow> nat \<Rightarrow> bool" where
  "in_class ranges n = list_ex (\<lambda>r. fst r \<le> n \<and> n \<le> snd r) ranges"

subsection \<open>\<open>src/utils/multilingual.py\<close>\<close>

definition script_patterns :: "(string \<times> (nat \<times> nat) list) list" where
  "script_patterns =
     [(''latin'', [(0x41, 0x5A), (0x61, 0x7A)]),
      (''cyrillic'', [(0x400, 0x4FF)]),
      (''arabic'', [(0x600, 0x6FF)]),
      (''chinese'', [(0x4E00, 0x9FFF)]),
      (''japanese_hiragana'', [(0x3040, 0x309F)]),
      (''japanese_katakana'', [(0x30A0, 0x30FF)]),
      (''korean'', [(0xAC00, 0xD7AF)]),
      (''thai'', [(0xE00, 0xE7F)]),
      (''devanagari'', [(0x900, 0x97F)])]"

text \<open>The script with the most matching characters, the first one on a tie.\<close>

definition detect_script :: "ustr \<Rightarrow> string" where
  "detect_script t =
     (if t = [] then ''unknown''
      else
        let script_counts =
              filter (\<lambda>sc. snd sc > 0)
                (map (\<lambda>sp. (fst sp, length (filter (in_class (snd sp)) t))) script_patterns)
        in case script_counts of
             [] \<Rightarrow> ''unknown''
           | sc # scs \<Rightarrow> fst (first_max sc scs))"

definition arabic_diacritic :: "nat \<Rightarrow> bool" where
  "arabic_diacritic n = ((0x64B \<le> n \<and> n \<le> 0x65F) \<or> n = 0x670 \<or> (0x6D6 \<le> n \<and> n \<le> 0x6ED))"

definition normalize_text :: "unicode_tables \<Rightarrow> ustr \<Rightarrow> ustr" where
  "normalize_text u t =
     (if t = [] then []
      else
        let t1 = nfc u t;
            t2 = collapse_whitespace t1;
            t3 = ustrip t2
        in if detect_script t3 = ''arabic'' then filter (\<lambda>c. \<not> arabic_diacritic c) t3 else t3)"

subsection \<open>\<open>docudots_module/multilingual.py\<close>\<close>

definition module_script_patterns :: "(string \<times> (nat \<times> nat) list) list" where
  "module_script_patterns =
     [(''latin'', [(0x41, 0x5A), (0x61, 0x7A)]),
      (''cyrillic'', [(0x400, 0x4FF)]),
      (''arabic'', [(0x600, 0x6FF)]),
      (''chinese'', [(0x4E00, 0x9FFF)]),
      (''japanese_hiragana'', [(0x3040, 0x309F)]),
      (''japanese_katakana'', [(0x30A0, 0x30FF)]),
      (''korean'', [(0xAC00, 0xD7AF)]),
      (''devanagari'', [(0x900, 0x97F)]),
      (''thai'', [(0xE00, 0xE7F)]),
      (''hebrew'', [(0x590, 0x5FF)])]"

definition script_to_language :: "string \<Rightarrow> string" where
  "script_to_language primary_script =
     (if primary_script = ''japanese_hiragana'' \<or> primary_script = ''japanese_katakana'' then ''japanese''
      else if primary_script = ''devanagari'' then ''hindi''
      else primary_script)"

text \<open>
  Every script gets a score, the share of matching characters, also when it is zero, so
  a text without any character of these scripts is \<open>latin\<close>, the first of the list.
\<close>

definition module_detect_script :: "unicode_tables \<Rightarrow> ustr \<Rightarrow> string" where
  "module_detect_script u t =
     (if t = [] then ''unknown''
      else
        let script_scores =
              map (\<lambda>sp. (fst sp,
                     (of_nat (length (filter (in_class_ignorecase u (snd sp)) t)) :: rat)
                       / of_nat (length t)))
                module_script_patterns
        in case script_scores of
             [] \<Rightarrow> ''unknown''
           | sc # scs \<Rightarrow> script_to_language (fst (max_by snd sc scs)))"

definition remove_diacritics :: "unicode_tables \<Rightarrow> ustr \<Rightarrow> ustr" where
  "remove_diacritics u t = filter (\<lambda>c. \<not> is_Mn u c) (nfd u t)"

definition normalize_width :: "ustr \<Rightarrow> ustr" where
  "normalize_width t = map (\<lambda>c. if 0xFF01 \<le> c \<and> c \<le> 0xFF5E then c - 0xFEE0 else c) t"

definition module_normalize_text :: "unicode_tables \<Rightarrow> ustr \<Rightarrow> ustr" where
  "module_normalize_text u t =
     (if t = [] then t
      else
        let normalized = ustrip (collapse_whitespace (nfkc u t));
            script = module_detect_script u normalized
        in if script = ''arabic'' \<or> script = ''hebrew'' then remove_diacritics u normalized
           else if script = ''chinese'' \<or> script = ''japanese'' then normalize_width normalized
           else normalized)"

section \<open>Rules as the specification states them, and example documents\<close>

text \<open>
  The acceptance rule of the candidate filter in the words of the specification: the
  length and noise tests and the additive score, with no other precondition.
\<close>

definition stated_additive_score :: "rat \<Rightarrow> text_block \<Rightarrow> rat" where
  "stated_additive_score body_size b =
     (let t = block_text b; wc = int (length (split t))
      in min 40 ((font_size b / body_size - 1) * 20)
         + (if is_bold b then 20 else 0)
         + (if wc \<le> 8 then 20 - 2 * of_int wc else 0)
         + (if pos_y (block_position b) < 200 then 10 else 0)
         + (if endswith t ''.'' \<or> endswith t ''!'' \<or> endswith t ''?'' then 0 else 5)
         + (if isupper t \<and> length t < 50 then 10 else 0)
         + (if isdigit (takeWhile (\<lambda>c. c \<noteq> CHR ''.'') t) then 8 else 0))"

definition stated_candidate_rule :: "rat \<Rightarrow> text_block \<Rightarrow> bool" where
  "stated_candidate_rule body_size b =
     (3 \<le> length (block_text b) \<and> length (block_text b) \<le> 200
      \<and> \<not> any_in noise_patterns (lower (block_text b))
      \<and> 25 \<le> stated_additive_score body_size b)"

definition doc_w :: "text_block list" where
  "doc_w = [span_block ''1. Introduction'' 18 True 1 80,
            span_block ''Plain body text of the page.'' 12 False 1 300,
            span_block ''More body text of the page.'' 12 False 1 320]"

text \<open>
  The vocabulary of the resolution rule of the level classifier: the score and the
  acceptance floor of a level, the priority of the levels, and the fallback on size
  and boldness.
\<close>

definition level_score :: "classification_scores \<Rightarrow> level \<Rightarrow> int" where
  "level_score s l = (case l of H1 \<Rightarrow> score_h1 s | H2 \<Rightarrow> score_h2 s | H3 \<Rightarrow> score_h3 s)"

definition level_floor :: "level \<Rightarrow> int" where
  "level_floor l = (case l of H1 \<Rightarrow> 25 | H2 \<Rightarrow> 20 | H3 \<Rightarrow> 15)"

definition level_rank :: "level \<Rightarrow> nat" where
  "level_rank l = (case l of H1 \<Rightarrow> 0 | H2 \<Rightarrow> 1 | H3 \<Rightarrow> 2)"

definition top_score :: "classification_scores \<Rightarrow> int" where
  "top_score s = max (max (score_h1 s) (score_h2 s)) (score_h3 s)"

definition fallback_level :: "rat \<Rightarrow> bool \<Rightarrow> int \<Rightarrow> level" where
  "fallback_level size_ratio bold word_count =
     (if size_ratio \<ge> 15 / 10 \<or> (bold \<and> word_count \<le> 2) then H1
      else if size_ratio \<ge> 12 / 10 \<or> (bold \<and> word_count \<le> 4) then H2
      else H3)"

text \<open>
  The rule in the words of the specification: the level with the highest score wins, the
  higher level on a tie, if the winning score meets the floor of the winner; else the
  fallback decides.
\<close>

definition stated_level :: "classification_scores \<Rightarrow> rat \<Rightarrow> bool \<Rightarrow> int \<Rightarrow> level" where
  "stated_level s size_ratio bold word_count =
     (let winner = (if score_h1 s = top_score s then H1
                    else if score_h2 s = top_score s then H2 else H3)
      in if level_floor winner \<le> level_score s winner then winner
         else fallback_level size_ratio bold word_count)"

definition doc_tie :: "text_block list" where
  "doc_tie = [span_block ''Alpha beta gamma delta epsilon'' (69 / 5) False 1 100,
              span_block ''Plain body text that fills the paragraph.'' 12 False 1 300,
              span_block ''More body text that fills the paragraph.'' 12 False 1 320]"

definition cand_tie :: heading_candidate where
  "cand_tie = \<lparr>cand_block = span_block ''Alpha beta gamma delta epsilon'' (69 / 5) False 1 100,
               heading_score = 28\<rparr>"

text \<open>
  A classified heading of page 1 at the vertical position \<open>y\<close>, with the level and the
  H2 and H3 scores given, for the examples of the refiner.
\<close>

definition classified :: "level \<Rightarrow> int \<Rightarrow> int \<Rightarrow> rat \<Rightarrow> classified_heading" where
  "classified lvl s2 s3 y =
     \<lparr>h_level = lvl, h_text = ''Section'', h_page = 1,
      h_position = \<lparr>pos_x = 72, pos_y = y, pos_width = 200, pos_height = 14\<rparr>,
      h_font_size = 14, h_is_bold = True, h_heading_score = 40, h_size_ratio = 7 / 6,
      h_scores = \<lparr>score_h1 = 10, score_h2 = s2, score_h3 = s3, score_final = max 10 (max s2 s3)\<rparr>\<rparr>"

definition cascade_headings :: "classified_heading list" where
  "cascade_headings = [classified H3 0 30 100, classified H1 20 0 200,
                       classified H3 30 30 300, classified H2 30 0 400]"

text \<open>
  The title selector in the words of the specification: the spans of pages 1 and 2
  within 95% of the largest font size; those of 5 to 150 characters without a noise
  marker of the filter's list survive; the text of the highest-scoring survivor, else
  the raw text of the first size-qualifying span, else the placeholder.
\<close>

definition stated_title :: "text_block list \<Rightarrow> string" where
  "stated_title text_blocks =
     (let cands = filter (\<lambda>b. 1 \<le> page_number b \<and> page_number b \<le> 2) text_blocks
      in if cands = [] then ''Untitled Document''
         else
           let large = filter (\<lambda>b. font_size b \<ge> list_max (map font_size cands) * (95 / 100)) cands;
               surv = filter (\<lambda>b. 5 \<le> length (block_text b) \<and> length (block_text b) \<le> 150
                         \<and> \<not> any_in noise_patterns (lower (block_text b))) large
           in case surv of
                [] \<Rightarrow> (case large of [] \<Rightarrow> ''Untitled Document'' | b # bs \<Rightarrow> block_text b)
              | b # bs \<Rightarrow> block_text (max_by (\<lambda>b. title_score b (block_text b)) b bs))"

definition doc_title :: "text_block list" where
  "doc_title = [span_block ''Introduction to Logic'' 24 True 1 50,
                span_block ''Verified Outlines'' 24 False 2 500]"

text \<open>A report with a title and two sections, as the module pipeline reads it.\<close>

definition doc_core :: "core_block list" where
  "doc_core =
     [\<lparr>cb_text = ''Annual Report'', cb_page = 0, cb_font_size = 30, cb_font_flags = 16,
       cb_bbox = (72, 40, 300, 70)\<rparr>,
      \<lparr>cb_text = ''Alpha section'', cb_page = 0, cb_font_size = 18, cb_font_flags = 0,
       cb_bbox = (72, 100, 300, 118)\<rparr>,
      \<lparr>cb_text = ''plain body text'', cb_page = 0, cb_font_size = 12, cb_font_flags = 0,
       cb_bbox = (72, 130, 300, 142)\<rparr>,
      \<lparr>cb_text = ''Beta section'', cb_page = 0, cb_font_size = 24, cb_font_flags = 0,
       cb_bbox = (72, 200, 300, 224)\<rparr>,
      \<lparr>cb_text = ''more plain body text'', cb_page = 0, cb_font_size = 12, cb_font_flags = 0,
       cb_bbox = (72, 230, 300, 242)\<rparr>]"

text \<open>Three bold section headings over four lines of body text, for the script pipeline.\<close>

definition doc_three :: "text_block list" where
  "doc_three =
     [span_block ''Scope'' 18 True 1 60,
      span_block ''Plain body text that fills the paragraph.'' 12 False 1 100,
      span_block ''Methods'' 18 True 1 140,
      span_block ''More body text that fills the paragraph.'' 12 False 1 180,
      span_block ''Findings'' 18 True 1 220,
      span_block ''Still more body text that fills the paragraph.'' 12 False 1 260,
      span_block ''The last body text that fills the paragraph.'' 12 False 1 300]"

text \<open>
  Tables under which a text is its own normal form and the non-spacing marks are the
  Arabic diacritics, for the examples of the normaliser; a text of the Latin letters
  \<open>h\<close>, \<open>i\<close> followed by the Arabic mark fathatan (U+064B).
\<close>

definition plain_tables :: unicode_tables where
  "plain_tables = \<lparr>nfc = (\<lambda>t. t), nfkc = (\<lambda>t. t), nfd = (\<lambda>t. t),
      is_Mn = arabic_diacritic, in_class_ignorecase = in_class\<rparr>"

definition latin_with_mark :: ustr where
  "latin_with_mark = [0x68, 0x69, 0x64B]"

section \<open>Properties of the font analysis\<close>

lemma Counter_snoc: "Counter (xs @ [x]) = counter_add x (Counter xs)"
  by (simp add: Counter_def)

lemma keys_counter_add:
  "map fst (counter_add x m) = (if x \<in> fst ` set m then map fst m else map fst m @ [x])"
  by (induction m) (auto split: if_splits)

lemma map_of_counter_add:
  "map_of (counter_add x m) = (map_of m)(x \<mapsto> (case map_of m x of None \<Rightarrow> 1 | Some c \<Rightarrow> c + 1))"
  by (induction m) (auto simp: fun_eq_iff)

lemma keys_Counter: "map fst (Counter xs) = rev (remdups (rev xs))"
proof (induction xs rule: rev_induct)
  case Nil
  show ?case by (simp add: Counter_def)
next
  case (snoc x xs)
  have "fst ` set (Counter xs) = set xs"
    using snoc by (metis set_map set_remdups set_rev)
  then show ?case
    using snoc by (simp add: Counter_snoc keys_counter_add)
qed

lemma set_keys_Counter: "fst ` set (Counter xs) = set xs"
  by (metis keys_Counter set_map set_remdups set_rev)

lemma distinct_keys_Counter: "distinct (map fst (Counter xs))"
  by (simp add: keys_Counter)

lemma map_of_Counter:
  "map_of (Counter xs) k = (if k \<in> set xs then Some (count_list xs k) else None)"
proof (induction xs rule: rev_induct)
  case Nil
  show ?case by (simp add: Counter_def)
next
  case (snoc x xs)
  then show ?case
    by (auto simp: Counter_snoc map_of_counter_add)
qed

lemma Counter_entry:
  "(k, c) \<in> set (Counter xs) \<longleftrightarrow> k \<in> set xs \<and> c = count_list xs k"
proof -
  have "(k, c) \<in> set (Counter xs) \<longleftrightarrow> map_of (Counter xs) k = Some c"
    using distinct_keys_Counter [of xs] by simp
  then show ?thesis by (auto simp: map_of_Counter)
qed

lemma first_occurrence_order:
  "rev (remdups (rev xs)) = A @ k # B \<Longrightarrow> k' \<in> set B \<Longrightarrow> k \<in> set (takeWhile (\<lambda>z. z \<noteq> k') xs)"
proof (induction xs arbitrary: B rule: rev_induct)
  case Nil
  then show ?case by simp
next
  case (snoc x xs)
  show ?case
  proof (cases "x \<in> set xs")
    case True
    with snoc.prems have "rev (remdups (rev xs)) = A @ k # B" by simp
    from snoc.IH [OF this snoc.prems(2)] show ?thesis
      by (auto simp: takeWhile_append dest: set_takeWhileD)
  next
    case False
    with snoc.prems have eq: "rev (remdups (rev xs)) @ [x] = A @ k # B" by simp
    from snoc.prems(2) obtain B' where B: "B = B' @ [x]"
      using eq by (metis append_butlast_last_id empty_iff last_ConsR last_appendR last_snoc list.set(1) list.simps(3))
    with eq have eq': "rev (remdups (rev xs)) = A @ k # B'" by simp
    show ?thesis
    proof (cases "k' = x")
      case True
      have "k \<in> set xs"
        using eq' by (metis in_set_conv_decomp set_remdups set_rev)
      moreover have "takeWhile (\<lambda>z. z \<noteq> x) (xs @ [x]) = xs"
        using False by (simp add: takeWhile_append)
      ultimately show ?thesis using True by simp
    next
      case neq: False
      with snoc.prems(2) B have "k' \<in> set B'" by simp
      from snoc.IH [OF eq' this] show ?thesis
        by (auto simp: takeWhile_append dest: set_takeWhileD)
    qed
  qed
qed

lemma first_max_split:
  "\<exists>A B. best # kcs = A @ first_max best kcs # B
      \<and> (\<forall>e \<in> set A. snd e < snd (first_max best kcs))
      \<and> (\<forall>e \<in> set B. snd e \<le> snd (first_max best kcs))"
proof (induction kcs arbitrary: best)
  case Nil
  have "[best] = [] @ first_max best [] # []" by simp
  then show ?case by (metis empty_iff list.set(1))
next
  case (Cons kc kcs)
  show ?case
  proof (cases "snd best < snd kc")
    case True
    from Cons [of kc] obtain A B where
      s: "kc # kcs = A @ first_max kc kcs # B"
      and a: "\<forall>e \<in> set A. snd e < snd (first_max kc kcs)"
      and b: "\<forall>e \<in> set B. snd e \<le> snd (first_max kc kcs)" by blast
    have "snd kc \<le> snd (first_max kc kcs)"
      using s a by (cases A) auto
    with True a have "\<forall>e \<in> set (best # A). snd e < snd (first_max kc kcs)" by auto
    moreover have "best # kc # kcs = (best # A) @ first_max kc kcs # B" using s by simp
    ultimately show ?thesis using True b by (metis first_max.simps(2))
  next
    case False
    from Cons [of best] obtain A B where
      s: "best # kcs = A @ first_max best kcs # B"
      and a: "\<forall>e \<in> set A. snd e < snd (first_max best kcs)"
      and b: "\<forall>e \<in> set B. snd e \<le> snd (first_max best kcs)" by blast
    show ?thesis
    proof (cases A)
      case Nil
      with s have "first_max best kcs = best" "B = kcs" by auto
      then have "best # kc # kcs = [] @ first_max best (kc # kcs) # (kc # kcs)"
        "\<forall>e \<in> set (kc # kcs). snd e \<le> snd (first_max best (kc # kcs))"
        using False b by auto
      then show ?thesis by (metis empty_iff list.set(1))
    next
      case (Cons a A')
      with s have a0: "a = best" and k: "kcs = A' @ first_max best kcs # B" by auto
      have "snd best < snd (first_max best kcs)" using a Cons a0 by simp
      with False have "snd kc < snd (first_max best kcs)" by simp
      with a Cons a0 have "\<forall>e \<in> set (best # kc # A'). snd e < snd (first_max best (kc # kcs))"
        using False by auto
      moreover have "best # kc # kcs = (best # kc # A') @ first_max best (kc # kcs) # B"
        using k False by simp
      moreover have "\<forall>e \<in> set B. snd e \<le> snd (first_max best (kc # kcs))"
        using b False by simp
      ultimately show ?thesis by blast
    qed
  qed
qed

lemma first_mode:
  assumes "xs \<noteq> []" and "Counter xs = kc # kcs" and "b = fst (first_max kc kcs)"
  shows "b \<in> set xs"
    and "count_list xs s \<le> count_list xs b"
    and "s \<noteq> b \<Longrightarrow> count_list xs s = count_list xs b \<Longrightarrow> b \<in> set (takeWhile (\<lambda>z. z \<noteq> s) xs)"
proof -
  obtain A B where
      s: "kc # kcs = A @ first_max kc kcs # B"
      and a: "\<forall>e \<in> set A. snd e < snd (first_max kc kcs)"
      and bb: "\<forall>e \<in> set B. snd e \<le> snd (first_max kc kcs)"
    using first_max_split [of kc kcs] by blast
  define c where "c = snd (first_max kc kcs)"
  have mem: "(b, c) \<in> set (Counter xs)"
    using s assms(2,3) c_def by (metis in_set_conv_decomp prod.collapse)
  then show bin: "b \<in> set xs" by (simp add: Counter_entry)
  from mem have c: "c = count_list xs b" by (simp add: Counter_entry)
  show le: "count_list xs s \<le> count_list xs b"
  proof (cases "s \<in> set xs")
    case True
    then have "(s, count_list xs s) \<in> set (A @ first_max kc kcs # B)"
      using assms(2) s by (metis Counter_entry)
    then consider "(s, count_list xs s) \<in> set A" | "first_max kc kcs = (s, count_list xs s)"
      | "(s, count_list xs s) \<in> set B" by auto
    then show ?thesis
    proof cases
      case 1
      with a have "snd (s, count_list xs s) < c" unfolding c_def by blast
      then show ?thesis using c by simp
    next
      case 2
      then show ?thesis using c c_def by simp
    next
      case 3
      with bb have "snd (s, count_list xs s) \<le> c" unfolding c_def by blast
      then show ?thesis using c by simp
    qed
  next
    case False
    then show ?thesis by (simp add: count_list_0_iff)
  qed
  show "b \<in> set (takeWhile (\<lambda>z. z \<noteq> s) xs)" if ne: "s \<noteq> b" and eq: "count_list xs s = count_list xs b"
  proof -
    have "count_list xs b \<noteq> 0" using bin by (simp add: count_list_0_iff)
    then have sin: "s \<in> set xs" using eq by (metis count_list_0_iff)
    then have e: "(s, c) \<in> set (A @ first_max kc kcs # B)"
      using assms(2) s c eq by (metis Counter_entry)
    have "(s, c) \<notin> set A" using a c_def by auto
    moreover have "(s, c) \<noteq> first_max kc kcs" using ne assms(3) by (metis fst_conv)
    ultimately have "(s, c) \<in> set B" using e by auto
    then have sB: "s \<in> set (map fst B)" by force
    have "rev (remdups (rev xs)) = map fst A @ b # map fst B"
      using keys_Counter [of xs] assms(2,3) s by (metis list.simps(9) map_append)
    from first_occurrence_order [OF this sB] show ?thesis .
  qed
qed

lemma body_font_size_nonempty:
  assumes "text_blocks \<noteq> []"
  shows "\<exists>kc kcs. Counter (map font_size text_blocks) = kc # kcs
           \<and> body_font_size (analyze_font_styles text_blocks) = fst (first_max kc kcs)"
proof -
  have "set (map font_size text_blocks) \<noteq> {}" using assms by simp
  then have "Counter (map font_size text_blocks) \<noteq> []"
    using set_keys_Counter [of "map font_size text_blocks"] by (metis image_is_empty set_empty)
  then obtain kc kcs where "Counter (map font_size text_blocks) = kc # kcs"
    by (cases "Counter (map font_size text_blocks)") auto
  then show ?thesis
    using assms by (simp add: analyze_font_styles_def most_common_1_def Let_def)
qed

text \<open>
  C4, as amended.  The profiler of \<open>main.py\<close> does not fail on the empty sequence and gives
  it the body size 12.  On a non-empty sequence the body size is a font size of the
  sequence whose number of occurrences no other size exceeds, and among the sizes tied
  for that number it is the one that occurs first in the sequence (not the smallest): it
  stands before the first occurrence of every other tied size.  The body size that
  \<open>_identify_headings\<close> of \<open>core.py\<close> computes for a non-empty sequence is the same.
\<close>

theorem body_font_size_first_mode:
  "body_font_size (analyze_font_styles []) = 12 \<and>
   (text_blocks \<noteq> [] \<longrightarrow>
      (let sizes = map font_size text_blocks;
           b = body_font_size (analyze_font_styles text_blocks)
       in b \<in> set sizes
          \<and> (\<forall>s. count_list sizes s \<le> count_list sizes b)
          \<and> (\<forall>s. s \<noteq> b \<and> count_list sizes s = count_list sizes b
                 \<longrightarrow> b \<in> set (takeWhile (\<lambda>z. z \<noteq> s) sizes)))) \<and>
   (font_sizes \<noteq> [] \<longrightarrow>
      (\<exists>b. body_text_size font_sizes = Inr b
          \<and> b \<in> set font_sizes
          \<and> (\<forall>s. count_list font_sizes s \<le> count_list font_sizes b)
          \<and> (\<forall>s. s \<noteq> b \<and> count_list font_sizes s = count_list font_sizes b
                 \<longrightarrow> b \<in> set (takeWhile (\<lambda>z. z \<noteq> s) font_sizes))))"
proof (intro conjI impI)
  show "body_font_size (analyze_font_styles []) = 12"
    by (simp add: analyze_font_styles_def)
next
  assume ne: "text_blocks \<noteq> []"
  define sizes where "sizes = map font_size text_blocks"
  define b where "b = body_font_size (analyze_font_styles text_blocks)"
  from body_font_size_nonempty [OF ne] obtain kc kcs where
    c: "Counter sizes = kc # kcs" and bb: "b = fst (first_max kc kcs)"
    unfolding sizes_def b_def by blast
  have sne: "sizes \<noteq> []" using ne by (simp add: sizes_def)
  note fm = first_mode [OF sne c bb]
  have "b \<in> set sizes
          \<and> (\<forall>s. count_list sizes s \<le> count_list sizes b)
          \<and> (\<forall>s. s \<noteq> b \<and> count_list sizes s = count_list sizes b
                 \<longrightarrow> b \<in> set (takeWhile (\<lambda>z. z \<noteq> s) sizes))"
    using fm by blast
  then show "let sizes = map font_size text_blocks;
           b = body_font_size (analyze_font_styles text_blocks)
       in b \<in> set sizes
          \<and> (\<forall>s. count_list sizes s \<le> count_list sizes b)
          \<and> (\<forall>s. s \<noteq> b \<and> count_list sizes s = count_list sizes b
                 \<longrightarrow> b \<in> set (takeWhile (\<lambda>z. z \<noteq> s) sizes))"
    unfolding sizes_def b_def Let_def .
next
  assume ne: "font_sizes \<noteq> []"
  have "set font_sizes \<noteq> {}" using ne by simp
  then have "Counter font_sizes \<noteq> []"
    using set_keys_Counter [of font_sizes] by (metis image_is_empty set_empty)
  then obtain kc kcs where c: "Counter font_sizes = kc # kcs"
    by (cases "Counter font_sizes") auto
  then have r: "body_text_size font_sizes = Inr (fst (first_max kc kcs))"
    by (simp add: body_text_size_def Counter_def)
  note fm = first_mode [OF ne c refl]
  show "\<exists>b. body_text_size font_sizes = Inr b
          \<and> b \<in> set font_sizes
          \<and> (\<forall>s. count_list font_sizes s \<le> count_list font_sizes b)
          \<and> (\<forall>s. s \<noteq> b \<and> count_list font_sizes s = count_list font_sizes b
                 \<longrightarrow> b \<in> set (takeWhile (\<lambda>z. z \<noteq> s) font_sizes))"
    using r fm by blast
qed

text \<open>
  The theorem at a document of three spans, sizes 14, 12, 12: the body size is 12 and it
  is one of the sizes.
\<close>

theorem body_font_size_first_mode_witness:
  "[span_block ''Title'' 14 True 1 50, span_block ''body'' 12 False 1 100,
    span_block ''text'' 12 False 1 120] \<noteq> []
   \<and> body_font_size (analyze_font_styles
        [span_block ''Title'' 14 True 1 50, span_block ''body'' 12 False 1 100,
         span_block ''text'' 12 False 1 120]) = 12
   \<and> [14, 12, 12 :: rat] \<noteq> []
   \<and> body_text_size [14, 12, 12] = Inr 12"
  using body_font_size_first_mode
    [of "[span_block ''Title'' 14 True 1 50, span_block ''body'' 12 False 1 100,
          span_block ''text'' 12 False 1 120]" "[14, 12, 12]"]
  by (simp add: analyze_font_styles_def span_block_def Counter_def most_common_1_def
      body_text_size_def)

text \<open>
  C4 as stated fails: with the sizes 14 and 12 occurring once each, both are tied for the
  highest count, the smaller is 12, and the body size is 14, the one met first, in
  \<open>main.py\<close> and in \<open>core.py\<close>.
\<close>

theorem body_font_size_smallest_tie_counterexample:
  "body_font_size (analyze_font_styles
      [span_block ''Heading'' 14 True 1 50, span_block ''body'' 12 False 1 100]) = 14
   \<and> count_list (map font_size
      [span_block ''Heading'' 14 True 1 50, span_block ''body'' 12 False 1 100]) 12
     = count_list (map font_size
      [span_block ''Heading'' 14 True 1 50, span_block ''body'' 12 False 1 100]) 14
   \<and> body_text_size [14, 12] = Inr 14
   \<and> (12 :: rat) < 14"
  by (simp add: analyze_font_styles_def span_block_def Counter_def most_common_1_def
      body_text_size_def)

section \<open>Properties of the candidate filter\<close>

lemma map_insort_key: "map g (insort_key (\<lambda>c. f (g c)) x xs) = insort_key f (g x) (map g xs)"
  by (induction xs) auto

lemma map_sort_key: "map g (sort_key (\<lambda>c. f (g c)) xs) = sort_key f (map g xs)"
  by (induction xs) (auto simp: map_insort_key)

lemma score_chain:
  "(let s0 = 0; s1 = s0 + (m::rat);
        s2 = (if b then s1 + 20 else s1);
        s3 = (if w then s2 + k else s2);
        s4 = (if p then s3 + 10 else s3);
        s5 = (if \<not> e then s4 + 5 else s4);
        s6 = (if c then s5 + 10 else s5);
        s7 = (if n then s6 + 8 else s6)
    in s7)
   = m + (if b then 20 else 0) + (if w then k else 0) + (if p then 10 else 0)
       + (if e then 0 else 5) + (if c then 10 else 0) + (if n then 8 else 0)"
  by (cases b; cases w; cases p; cases e; cases c; cases n; simp add: Let_def)

lemma heading_likelihood_sum:
  "heading_likelihood body b t =
     min 40 ((font_size b / body - 1) * 20)
     + (if is_bold b then 20 else 0)
     + (if int (length (split t)) \<le> 8 then 20 - 2 * of_int (int (length (split t))) else 0)
     + (if pos_y (block_position b) < 200 then 10 else 0)
     + (if endswith t ''.'' \<or> endswith t ''!'' \<or> endswith t ''?'' then 0 else 5)
     + (if isupper t \<and> 3 < length t \<and> length t < 50 then 10 else 0)
     + (if isdigit (filter (\<lambda>c. c \<noteq> CHR '' '') (takeWhile (\<lambda>c. c \<noteq> CHR ''.'') t)) then 8 else 0)"
proof -
  have "heading_likelihood body b t =
    (let s0 = 0; s1 = s0 + min 40 ((font_size b / body - 1) * 20);
        s2 = (if is_bold b then s1 + 20 else s1);
        s3 = (if int (length (split t)) \<le> 8 then s2 + (20 - 2 * of_int (int (length (split t)))) else s2);
        s4 = (if pos_y (block_position b) < 200 then s3 + 10 else s3);
        s5 = (if \<not> (endswith t ''.'' \<or> endswith t ''!'' \<or> endswith t ''?'') then s4 + 5 else s4);
        s6 = (if isupper t \<and> 3 < length t \<and> length t < 50 then s5 + 10 else s5);
        s7 = (if isdigit (filter (\<lambda>c. c \<noteq> CHR '' '') (takeWhile (\<lambda>c. c \<noteq> CHR ''.'') t)) then s6 + 8 else s6)
    in s7)"
    unfolding heading_likelihood_def Let_def by (simp add: conj_commute conj_left_commute)
  then show ?thesis unfolding score_chain .
qed


lemma filter_block_result:
  assumes "body \<noteq> 0"
  shows "filter_block body avg b =
     Inr (if 3 \<le> length (strip (block_text b)) \<and> length (strip (block_text b)) \<le> 200
             \<and> \<not> any_in noise_patterns (lower (strip (block_text b)))
             \<and> (font_size b > max (body * (11 / 10)) (avg * (105 / 100))
                  \<or> (is_bold b \<and> font_size b \<ge> body * (9 / 10))
                  \<or> font_size b > avg * (13 / 10))
             \<and> 25 \<le> heading_likelihood body b (strip (block_text b))
          then Some \<lparr>cand_block = b,
                 heading_score = round2 (heading_likelihood body b (strip (block_text b)))\<rparr>
          else None)"
  using assms unfolding filter_block_def Let_def
  by (simp add: not_less not_le)

lemma filter_loop_result:
  assumes "\<And>b. filter_block body avg b = Inr (if G b then Some (mk b) else None)"
  shows "filter_loop body avg blocks = Inr (map mk (filter G blocks))"
  by (induction blocks) (simp_all add: assms)

text \<open>
  C2, as amended.  For a font profile with statistics and a non-zero body size the filter
  returns, in the stable order of page and vertical position, exactly the spans
  \<^item> whose stripped text has between 3 and 200 characters,
  \<^item> whose lowercased text contains none of the noise markers,
  \<^item> that pass the size test, which the statement of C2 leaves out: the font size
    exceeds both 1.1 times the body size and 1.05 times the average size, or the span is
    bold and at least 0.9 times the body size, or the size exceeds 1.3 times the average,
  \<^item> and whose additive score is at least 25; in the score the all-caps factor needs a
    text of more than 3 and fewer than 50 characters, and the numbering factor reads the
    segment before the first dot with its spaces removed.
\<close>

theorem filter_heading_candidates_exact:
  assumes "stats fa = Some st" and "body_font_size fa \<noteq> 0"
  shows "\<exists>cs. filter_heading_candidates text_blocks fa = Inr cs
     \<and> map cand_block cs = sort_key document_order (filter (\<lambda>b.
          let t = strip (block_text b);
              wc = int (length (split t));
              size_ratio = font_size b / body_font_size fa
          in 3 \<le> length t \<and> length t \<le> 200
             \<and> \<not> any_in noise_patterns (lower t)
             \<and> (font_size b > max (body_font_size fa * (11 / 10)) (stat_average st * (105 / 100))
                  \<or> (is_bold b \<and> font_size b \<ge> body_font_size fa * (9 / 10))
                  \<or> font_size b > stat_average st * (13 / 10))
             \<and> 25 \<le> min 40 ((size_ratio - 1) * 20)
                      + (if is_bold b then 20 else 0)
                      + (if wc \<le> 8 then 20 - 2 * of_int wc else 0)
                      + (if pos_y (block_position b) < 200 then 10 else 0)
                      + (if endswith t ''.'' \<or> endswith t ''!'' \<or> endswith t ''?'' then 0 else 5)
                      + (if isupper t \<and> 3 < length t \<and> length t < 50 then 10 else 0)
                      + (if isdigit (filter (\<lambda>c. c \<noteq> CHR '' '')
                                      (takeWhile (\<lambda>c. c \<noteq> CHR ''.'') t))
                         then 8 else 0)) text_blocks)"
proof -
  let ?mk = "\<lambda>b. \<lparr>cand_block = b,
       heading_score = round2 (heading_likelihood (body_font_size fa) b (strip (block_text b)))\<rparr>"
  let ?G = "\<lambda>b. 3 \<le> length (strip (block_text b)) \<and> length (strip (block_text b)) \<le> 200
             \<and> \<not> any_in noise_patterns (lower (strip (block_text b)))
             \<and> (font_size b > max (body_font_size fa * (11 / 10)) (stat_average st * (105 / 100))
                  \<or> (is_bold b \<and> font_size b \<ge> body_font_size fa * (9 / 10))
                  \<or> font_size b > stat_average st * (13 / 10))
             \<and> 25 \<le> heading_likelihood (body_font_size fa) b (strip (block_text b))"
  have loop: "filter_loop (body_font_size fa) (stat_average st) text_blocks
      = Inr (map ?mk (filter ?G text_blocks))"
    by (rule filter_loop_result) (rule filter_block_result [OF assms(2)])
  have "filter_heading_candidates text_blocks fa
      = Inr (sort_key (\<lambda>c. document_order (cand_block c)) (map ?mk (filter ?G text_blocks)))"
    by (simp add: filter_heading_candidates_def assms(1) loop)
  moreover have "map cand_block (sort_key (\<lambda>c. document_order (cand_block c)) (map ?mk (filter ?G text_blocks)))
      = sort_key document_order (filter ?G text_blocks)"
    by (simp add: map_sort_key o_def)
  ultimately show ?thesis
    unfolding heading_likelihood_sum Let_def by blast
qed

text \<open>The theorem at a document of a numbered bold heading and two body lines.\<close>

theorem filter_heading_candidates_exact_witness:
  "stats (analyze_font_styles doc_w) = Some \<lparr>stat_average = 14, stat_median = 12, stat_min = 12, stat_max = 18, stat_most_common = 12\<rparr>
   \<and> body_font_size (analyze_font_styles doc_w) \<noteq> 0
   \<and> (\<exists>cs. filter_heading_candidates doc_w (analyze_font_styles doc_w) = Inr cs)"
proof -
  have h1: "stats (analyze_font_styles doc_w) = Some \<lparr>stat_average = 14, stat_median = 12, stat_min = 12, stat_max = 18, stat_most_common = 12\<rparr>"
    by code_simp
  have h2: "body_font_size (analyze_font_styles doc_w) \<noteq> 0"
    by code_simp
  show ?thesis
    using h1 h2 filter_heading_candidates_exact [OF h1 h2, of doc_w] by blast
qed

text \<open>
  C2 as stated fails: a one-word span at the body size, at the top of its page, has the
  additive score 0 + 18 + 10 + 5 = 33 and meets the length and noise tests, and the
  filter leaves it out, since it does not pass the size test.
\<close>

theorem filter_gate_counterexample:
  "filter_heading_candidates [span_block ''Overview'' 12 False 1 50]
      (analyze_font_styles [span_block ''Overview'' 12 False 1 50]) = Inr []
   \<and> body_font_size (analyze_font_styles [span_block ''Overview'' 12 False 1 50]) = 12
   \<and> stated_additive_score 12 (span_block ''Overview'' 12 False 1 50) = 33
   \<and> stated_candidate_rule 12 (span_block ''Overview'' 12 False 1 50)"
  by code_simp

section \<open>Properties of the level classifier\<close>

lemma classify_block_Inr:
  assumes "classify_block body c = Inr h"
  shows "body \<noteq> 0"
    and "level_scores (font_size (cand_block c) / body) c
           = (score_h1 (h_scores h), score_h2 (h_scores h), score_h3 (h_scores h))"
    and "score_final (h_scores h) = top_score (h_scores h)"
    and "h_level h =
          (if top_score (h_scores h) = score_h1 (h_scores h) \<and> score_h1 (h_scores h) \<ge> 25 then H1
           else if top_score (h_scores h) = score_h2 (h_scores h) \<and> score_h2 (h_scores h) \<ge> 20 then H2
           else if top_score (h_scores h) = score_h3 (h_scores h) \<and> score_h3 (h_scores h) \<ge> 15 then H3
           else fallback_level (font_size (cand_block c) / body) (is_bold (cand_block c))
                  (int (length (split (strip (block_text (cand_block c)))))))"
    and "h_text h = strip (block_text (cand_block c))"
    and "h_page h = page_number (cand_block c)"
    and "h_position h = block_position (cand_block c)"
proof -
  show b: "body \<noteq> 0"
    using assms by (auto simp: classify_block_def Let_def)
  obtain a1 a2 a3 where ls: "level_scores (font_size (cand_block c) / body) c = (a1, a2, a3)"
    by (metis prod_cases3)
  define lvl where "lvl =
          (if max (max a1 a2) a3 = a1 \<and> a1 \<ge> 25 then H1
           else if max (max a1 a2) a3 = a2 \<and> a2 \<ge> 20 then H2
           else if max (max a1 a2) a3 = a3 \<and> a3 \<ge> 15 then H3
           else fallback_level (font_size (cand_block c) / body) (is_bold (cand_block c))
                  (int (length (split (strip (block_text (cand_block c)))))))"
  have h: "h = \<lparr>h_level = lvl, h_text = strip (block_text (cand_block c)),
               h_page = page_number (cand_block c),
               h_position = block_position (cand_block c), h_font_size = font_size (cand_block c),
               h_is_bold = is_bold (cand_block c), h_heading_score = heading_score c,
               h_size_ratio = round2 (font_size (cand_block c) / body),
               h_scores = \<lparr>score_h1 = a1, score_h2 = a2, score_h3 = a3,
                            score_final = max (max a1 a2) a3\<rparr>\<rparr>"
    using assms b ls unfolding classify_block_def Let_def lvl_def fallback_level_def
    by simp
  have f: "h_level h = lvl" "score_h1 (h_scores h) = a1" "score_h2 (h_scores h) = a2"
    "score_h3 (h_scores h) = a3" "top_score (h_scores h) = max (max a1 a2) a3"
    "score_final (h_scores h) = max (max a1 a2) a3"
    by (simp_all add: h top_score_def)
  show "level_scores (font_size (cand_block c) / body) c
           = (score_h1 (h_scores h), score_h2 (h_scores h), score_h3 (h_scores h))"
    unfolding f ls ..
  show "score_final (h_scores h) = top_score (h_scores h)"
    unfolding f ..
  show "h_level h =
          (if top_score (h_scores h) = score_h1 (h_scores h) \<and> score_h1 (h_scores h) \<ge> 25 then H1
           else if top_score (h_scores h) = score_h2 (h_scores h) \<and> score_h2 (h_scores h) \<ge> 20 then H2
           else if top_score (h_scores h) = score_h3 (h_scores h) \<and> score_h3 (h_scores h) \<ge> 15 then H3
           else fallback_level (font_size (cand_block c) / body) (is_bold (cand_block c))
                  (int (length (split (strip (block_text (cand_block c)))))))"
    unfolding f lvl_def ..
  show "h_text h = strip (block_text (cand_block c))" by (simp add: h)
  show "h_page h = page_number (cand_block c)" by (simp add: h)
  show "h_position h = block_position (cand_block c)" by (simp add: h)
qed

text \<open>
  C1, as amended.  Call a level eligible when its accumulated score equals the highest
  of the three scores and meets its own floor (25, 20, 15).  The classifier assigns the
  eligible level of highest priority (H1 before H2 before H3) when there is one, and
  the fallback level (H1 if the size ratio is at least 1.5 or the span is bold with at
  most 2 words, else H2 if the ratio is at least 1.2 or bold with at most 4 words, else
  H3) when no level is eligible.  A level that ties for the highest score below its own
  floor does not stop a lower level that meets its floor.
\<close>

theorem classify_block_level:
  assumes "classify_block body c = Inr h"
  shows "(score_h1 (h_scores h), score_h2 (h_scores h), score_h3 (h_scores h))
            = level_scores (font_size (cand_block c) / body) c
     \<and> (let s = h_scores h;
             eligible = (\<lambda>l. level_score s l = top_score s \<and> level_floor l \<le> level_score s l)
         in ((\<exists>l. eligible l) \<longrightarrow>
               eligible (h_level h) \<and> (\<forall>l. eligible l \<longrightarrow> level_rank (h_level h) \<le> level_rank l))
          \<and> ((\<forall>l. \<not> eligible l) \<longrightarrow>
               h_level h = fallback_level (font_size (cand_block c) / body) (is_bold (cand_block c))
                             (int (length (split (strip (block_text (cand_block c))))))))"
proof -
  note r = classify_block_Inr [OF assms]
  let ?s = "h_scores h"
  let ?el = "\<lambda>l. level_score ?s l = top_score ?s \<and> level_floor l \<le> level_score ?s l"
  let ?fb = "fallback_level (font_size (cand_block c) / body) (is_bold (cand_block c))
                             (int (length (split (strip (block_text (cand_block c))))))"
  have e1: "?el H1 \<longleftrightarrow> top_score ?s = score_h1 ?s \<and> score_h1 ?s \<ge> 25"
    and e2: "?el H2 \<longleftrightarrow> top_score ?s = score_h2 ?s \<and> score_h2 ?s \<ge> 20"
    and e3: "?el H3 \<longleftrightarrow> top_score ?s = score_h3 ?s \<and> score_h3 ?s \<ge> 15"
    by (auto simp: level_score_def level_floor_def)
  have lv: "h_level h = (if ?el H1 then H1 else if ?el H2 then H2
                         else if ?el H3 then H3 else ?fb)"
    using r(4) unfolding e1 e2 e3 .
  have all: "?el H1 \<or> ?el H2 \<or> ?el H3" if "\<exists>l. ?el l"
  proof -
    from that obtain l where l: "?el l" ..
    show ?thesis using l by (cases l) simp_all
  qed
  have a1: "?el (h_level h)" if "\<exists>l. ?el l"
  proof -
    from all [OF that] consider "?el H1" | "\<not> ?el H1" "?el H2" | "\<not> ?el H1" "\<not> ?el H2" "?el H3"
      by blast
    then show ?thesis
    proof cases
      case 1
      then have "h_level h = H1" using lv by simp
      with 1 show ?thesis by simp
    next
      case 2
      then have "h_level h = H2" using lv by simp
      with 2 show ?thesis by simp
    next
      case 3
      then have "h_level h = H3" using lv by simp
      with 3 show ?thesis by simp
    qed
  qed
  have a2: "level_rank (h_level h) \<le> level_rank l" if el: "?el l" for l
  proof (cases l)
    case H1
    then have "h_level h = H1" using el lv by simp
    then show ?thesis by (simp add: level_rank_def)
  next
    case H2
    then have "h_level h = H1 \<or> h_level h = H2" using el lv by (cases "?el H1") simp_all
    then show ?thesis using H2 by (auto simp: level_rank_def)
  next
    case H3
    then show ?thesis by (cases "h_level h") (simp_all add: level_rank_def)
  qed
  have b: "h_level h = ?fb" if "\<forall>l. \<not> ?el l"
    using lv that by simp
  have A: "(\<exists>l. ?el l) \<longrightarrow>
      ?el (h_level h) \<and> (\<forall>l. ?el l \<longrightarrow> level_rank (h_level h) \<le> level_rank l)"
    using a1 a2 by blast
  have B: "(\<forall>l. \<not> ?el l) \<longrightarrow> h_level h = ?fb"
    using b by blast
  show ?thesis
    unfolding Let_def by (rule conjI [OF r(2) [symmetric] conjI [OF A B]])
qed

text \<open>The theorem at the candidate \<open>1. Introduction\<close> of an 18 point bold span over a 12 point body.\<close>

theorem classify_block_level_witness:
  "(\<exists>h. classify_block 12 \<lparr>cand_block = span_block ''1. Introduction'' 18 True 2 80, heading_score = 69\<rparr> = Inr h
       \<and> h_level h = H1 \<and> score_h1 (h_scores h) = 90
       \<and> level_scores (18 / 12) \<lparr>cand_block = span_block ''1. Introduction'' 18 True 2 80, heading_score = 69\<rparr>
           = (score_h1 (h_scores h), score_h2 (h_scores h), score_h3 (h_scores h)))"
proof -
  let ?c = "\<lparr>cand_block = span_block ''1. Introduction'' 18 True 2 80, heading_score = 69\<rparr>"
  have "case classify_block 12 ?c of Inl e \<Rightarrow> False
        | Inr h \<Rightarrow> h_level h = H1 \<and> score_h1 (h_scores h) = 90"
    by code_simp
  then obtain h where h: "classify_block 12 ?c = Inr h"
    and l: "h_level h = H1" and s: "score_h1 (h_scores h) = 90"
    by (cases "classify_block 12 ?c") auto
  from classify_block_level [OF h] have
    "level_scores (18 / 12) ?c
           = (score_h1 (h_scores h), score_h2 (h_scores h), score_h3 (h_scores h))"
    by (simp add: span_block_def)
  with h l s show ?thesis by blast
qed

text \<open>
  C1 as stated fails.  The five-word span of 13.8 points over a 12 point body, at the top
  of its page, passes the filter and gets the scores 20, 20, 20.  By the stated rule H1
  wins the tie, misses its floor of 25, and the fallback gives H3 (ratio 1.15, not bold).
  The classifier assigns H2, whose score meets the floor of 20.
\<close>

theorem level_tie_counterexample:
  "filter_heading_candidates doc_tie (analyze_font_styles doc_tie) = Inr [cand_tie]
   \<and> body_font_size (analyze_font_styles doc_tie) = 12
   \<and> map_sum id (\<lambda>h. (h_level h, h_scores h)) (classify_block 12 cand_tie)
        = Inr (H2, \<lparr>score_h1 = 20, score_h2 = 20, score_h3 = 20, score_final = 20\<rparr>)
   \<and> stated_level \<lparr>score_h1 = 20, score_h2 = 20, score_h3 = 20, score_final = 20\<rparr>
        ((69 / 5) / 12) False 5 = H3"
  by code_simp

section \<open>Properties of the hierarchy refiner\<close>

lemma refine_step_frame:
  "refine_step refs i s a = s a
   \<or> (a = refs ! i \<and> refine_step refs i s a = (s a)\<lparr>h_level := H2\<rparr>)"
  unfolding refine_step_def Let_def by simp

lemma refine_step_other:
  "a \<noteq> refs ! i \<Longrightarrow> refine_step refs i s a = s a"
  using refine_step_frame [of refs i s a] by blast

lemma refine_step_level_only:
  "refine_step refs i s a = (s a)\<lparr>h_level := h_level (refine_step refs i s a)\<rparr>
   \<and> (h_level (refine_step refs i s a) = h_level (s a) \<or> h_level (refine_step refs i s a) = H2)"
  using refine_step_frame [of refs i s a] by auto

lemma fold_refine_level_only:
  "fold (refine_step refs) ixs s a = (s a)\<lparr>h_level := h_level (fold (refine_step refs) ixs s a)\<rparr>
   \<and> (h_level (fold (refine_step refs) ixs s a) = h_level (s a)
        \<or> h_level (fold (refine_step refs) ixs s a) = H2)"
proof (induction ixs arbitrary: s)
  case Nil
  show ?case by simp
next
  case (Cons i ixs)
  let ?t = "refine_step refs i s"
  let ?u = "fold (refine_step refs) ixs ?t"
  from Cons [of ?t] have 1: "?u a = (?t a)\<lparr>h_level := h_level (?u a)\<rparr>"
    and 2: "h_level (?u a) = h_level (?t a) \<or> h_level (?u a) = H2" by blast+
  from refine_step_level_only [of refs i s a]
  have 3: "?t a = (s a)\<lparr>h_level := h_level (?t a)\<rparr>"
    and 4: "h_level (?t a) = h_level (s a) \<or> h_level (?t a) = H2" by blast+
  have "?u a = ((s a)\<lparr>h_level := h_level (?t a)\<rparr>)\<lparr>h_level := h_level (?u a)\<rparr>"
    using 1 3 by metis
  then have "?u a = (s a)\<lparr>h_level := h_level (?u a)\<rparr>" by simp
  moreover have "h_level (?u a) = h_level (s a) \<or> h_level (?u a) = H2"
    using 2 4 by auto
  ultimately show ?case by simp
qed

lemma fold_refine_other:
  assumes "\<forall>i \<in> set ixs. a \<noteq> refs ! i"
  shows "fold (refine_step refs) ixs s a = s a"
  using assms by (induction ixs arbitrary: s) (simp_all add: refine_step_other)


text \<open>
  C10.  The refiner returns the list of headings it was given: the same references, in
  the same order, so a list of the same length.  In the store every heading is what it
  was but for its level, and a level that differs from the one before is H2: the text,
  the page, the position and the classification scores are unchanged.
\<close>

theorem refine_heading_hierarchy_frame:
  "snd (refine_heading_hierarchy s headings) = headings
   \<and> list_all2 (\<lambda>h' h. h' = h\<lparr>h_level := h_level h'\<rparr> \<and> (h_level h' = h_level h \<or> h_level h' = H2)
                   \<and> h_text h' = h_text h \<and> h_page h' = h_page h \<and> h_position h' = h_position h
                   \<and> h_scores h' = h_scores h)
        (deref (refine_heading_hierarchy s headings)) (deref (s, headings))
   \<and> (\<forall>a. fst (refine_heading_hierarchy s headings) a
             = (s a)\<lparr>h_level := h_level (fst (refine_heading_hierarchy s headings) a)\<rparr>
          \<and> (h_level (fst (refine_heading_hierarchy s headings) a) = h_level (s a)
               \<or> h_level (fst (refine_heading_hierarchy s headings) a) = H2))"
proof -
  let ?s' = "fst (refine_heading_hierarchy s headings)"
  have snd: "snd (refine_heading_hierarchy s headings) = headings"
    by (simp add: refine_heading_hierarchy_def)
  have fr: "?s' a = (s a)\<lparr>h_level := h_level (?s' a)\<rparr>
          \<and> (h_level (?s' a) = h_level (s a) \<or> h_level (?s' a) = H2)" for a
  proof (cases "length headings \<le> 1")
    case True
    then show ?thesis by (simp add: refine_heading_hierarchy_def)
  next
    case False
    then have "?s' = fold (refine_step headings) [0..<length headings] s"
      by (simp add: refine_heading_hierarchy_def)
    then show ?thesis
      using fold_refine_level_only [of headings "[0..<length headings]" s a] by simp
  qed
  have fields: "h_text (?s' a) = h_text (s a) \<and> h_page (?s' a) = h_page (s a)
      \<and> h_position (?s' a) = h_position (s a) \<and> h_scores (?s' a) = h_scores (s a)" for a
  proof -
    from fr [of a] have "?s' a = (s a)\<lparr>h_level := h_level (?s' a)\<rparr>" ..
    then have "h_text (?s' a) = h_text ((s a)\<lparr>h_level := h_level (?s' a)\<rparr>)"
      "h_page (?s' a) = h_page ((s a)\<lparr>h_level := h_level (?s' a)\<rparr>)"
      "h_position (?s' a) = h_position ((s a)\<lparr>h_level := h_level (?s' a)\<rparr>)"
      "h_scores (?s' a) = h_scores ((s a)\<lparr>h_level := h_level (?s' a)\<rparr>)"
      by simp_all
    then show ?thesis by simp
  qed
  have "list_all2 (\<lambda>h' h. h' = h\<lparr>h_level := h_level h'\<rparr> \<and> (h_level h' = h_level h \<or> h_level h' = H2)
                   \<and> h_text h' = h_text h \<and> h_page h' = h_page h \<and> h_position h' = h_position h
                   \<and> h_scores h' = h_scores h)
        (map ?s' headings) (map s headings)"
    unfolding list_all2_map1 list_all2_map2
    by (rule list_all2_refl) (use fr fields in blast)
  then show ?thesis
    using snd fr by (simp add: deref_def)
qed


text \<open>
  With pairwise different references the pass at index \<open>i\<close> finds the heading \<open>i\<close> and all
  later ones as they were given, and what it writes at \<open>i\<close> stays.
\<close>

lemma fold_refine_later:
  assumes "distinct refs" and "k \<le> j" and "j < length refs"
  shows "fold (refine_step refs) [0..<k] s (refs ! j) = s (refs ! j)"
proof (rule fold_refine_other)
  show "\<forall>i \<in> set [0..<k]. refs ! j \<noteq> refs ! i"
    using assms by (auto simp: nth_eq_iff_index_eq)
qed

lemma fold_refine_at:
  assumes "distinct refs" and "i < length refs"
  shows "fold (refine_step refs) [0..<length refs] s (refs ! i)
       = refine_step refs i (fold (refine_step refs) [0..<i] s) (refs ! i)"
proof -
  have "[0..<length refs] = [0..<i] @ [i] @ [Suc i..<length refs]"
    using assms(2) by (metis append_Cons append_Nil less_imp_le_nat upt_add_eq_append
        le_add_diff_inverse upt_conv_Cons zero_le)
  then have "fold (refine_step refs) [0..<length refs] s
      = fold (refine_step refs) [Suc i..<length refs]
          (refine_step refs i (fold (refine_step refs) [0..<i] s))"
    by simp
  moreover have "\<forall>k \<in> set [Suc i..<length refs]. refs ! i \<noteq> refs ! k"
    using assms by (auto simp: nth_eq_iff_index_eq)
  ultimately show ?thesis
    by (simp add: fold_refine_other)
qed

lemma fold_refine_prev:
  assumes "distinct refs" and "j < i" and "i \<le> length refs"
  shows "fold (refine_step refs) [0..<i] s (refs ! j)
       = fold (refine_step refs) [0..<length refs] s (refs ! j)"
proof -
  have "[0..<length refs] = [0..<i] @ [i..<length refs]"
    using assms(3) by (metis le_add_diff_inverse upt_add_eq_append zero_le)
  then have "fold (refine_step refs) [0..<length refs] s
      = fold (refine_step refs) [i..<length refs] (fold (refine_step refs) [0..<i] s)"
    by simp
  moreover have "\<forall>k \<in> set [i..<length refs]. refs ! j \<noteq> refs ! k"
    using assms by (auto simp: nth_eq_iff_index_eq)
  ultimately show ?thesis
    by (simp add: fold_refine_other)
qed

lemma refine_step_level_at:
  "h_level (refine_step refs i t (refs ! i)) =
     (if 0 < i \<and> i + 1 < length refs then
        (if h_level (t (refs ! i)) = H1 \<and> h_level (t (refs ! (i - 1))) = H3
            \<and> h_level (t (refs ! (i + 1))) = H3 \<and> 15 \<le> score_h2 (h_scores (t (refs ! i)))
         then H2
         else if h_level (t (refs ! i)) = H3 \<and> h_level (t (refs ! (i - 1))) = H2
            \<and> h_level (t (refs ! (i + 1))) = H2
            \<and> score_h3 (h_scores (t (refs ! i))) \<le> score_h2 (h_scores (t (refs ! i)))
         then H2
         else h_level (t (refs ! i)))
      else h_level (t (refs ! i)))"
  unfolding refine_step_def Let_def by simp

text \<open>The level of heading \<open>i\<close> after the pass, from the levels the pass reads.\<close>

lemma refined_level:
  assumes "distinct refs" and "i < length refs"
  shows "h_level (fst (refine_heading_hierarchy s refs) (refs ! i)) =
     (if 0 < i \<and> i + 1 < length refs then
        (if h_level (s (refs ! i)) = H1
            \<and> h_level (fst (refine_heading_hierarchy s refs) (refs ! (i - 1))) = H3
            \<and> h_level (s (refs ! (i + 1))) = H3 \<and> 15 \<le> score_h2 (h_scores (s (refs ! i)))
         then H2
         else if h_level (s (refs ! i)) = H3
            \<and> h_level (fst (refine_heading_hierarchy s refs) (refs ! (i - 1))) = H2
            \<and> h_level (s (refs ! (i + 1))) = H2
            \<and> score_h3 (h_scores (s (refs ! i))) \<le> score_h2 (h_scores (s (refs ! i)))
         then H2
         else h_level (s (refs ! i)))
      else h_level (s (refs ! i)))"
proof (cases "length refs \<le> 1")
  case True
  then have "\<not> (0 < i \<and> i + 1 < length refs)" by simp
  then show ?thesis using True by (simp add: refine_heading_hierarchy_def)
next
  case False
  let ?F = "\<lambda>k. fold (refine_step refs) [0..<k] s"
  have out: "fst (refine_heading_hierarchy s refs) = ?F (length refs)"
    using False by (simp add: refine_heading_hierarchy_def)
  have at: "?F (length refs) (refs ! i) = refine_step refs i (?F i) (refs ! i)"
    by (rule fold_refine_at [OF assms])
  have cur: "?F i (refs ! i) = s (refs ! i)"
    by (rule fold_refine_later [OF assms(1) le_refl assms(2)])
  show ?thesis
  proof (cases "0 < i \<and> i + 1 < length refs")
    case inner: True
    have nxt: "?F i (refs ! (i + 1)) = s (refs ! (i + 1))"
      using inner by (intro fold_refine_later [OF assms(1)]) simp_all
    have prev: "?F i (refs ! (i - 1)) = ?F (length refs) (refs ! (i - 1))"
      using inner assms(2) by (intro fold_refine_prev [OF assms(1)]) simp_all
    show ?thesis
      unfolding out at refine_step_level_at cur nxt prev ..
  next
    case outer: False
    then show ?thesis
      unfolding out at refine_step_level_at cur by simp
  qed
qed

text \<open>
  C5.  The headings are pairwise different dictionaries (\<open>distinct\<close>), as the classifier
  builds them.  The first and the last heading keep their level.  For a heading \<open>i\<close> with
  both neighbours, the levels the pass reads are \<open>prev\<close>, the level of heading \<open>i - 1\<close> as
  the pass has left it (it writes in place), and \<open>nxt\<close>, the level of heading \<open>i + 1\<close> as
  classified.  Heading \<open>i\<close> goes from H1 to H2 exactly when both are H3 and its H2 score is
  at least 15, from H3 to H2 exactly when both are H2 and its H2 score is at least its H3
  score, and its level changes in no other way.  A change can follow a change of the
  heading before (one hop), but three headings in a row never all change.
\<close>

theorem refine_heading_hierarchy_rule:
  assumes "distinct headings" and "i < length headings"
  shows "let s' = fst (refine_heading_hierarchy s headings);
             cur = s (headings ! i);
             lvl = h_level cur;
             lvl' = h_level (s' (headings ! i))
         in if 0 < i \<and> i + 1 < length headings then
              let prev = h_level (s' (headings ! (i - 1)));
                  nxt = h_level (s (headings ! (i + 1)))
              in ((lvl = H1 \<and> lvl' = H2)
                    = (lvl = H1 \<and> prev = H3 \<and> nxt = H3 \<and> 15 \<le> score_h2 (h_scores cur)))
               \<and> ((lvl = H3 \<and> lvl' = H2)
                    = (lvl = H3 \<and> prev = H2 \<and> nxt = H2
                       \<and> score_h3 (h_scores cur) \<le> score_h2 (h_scores cur)))
               \<and> (lvl' = lvl \<or> (lvl = H1 \<and> lvl' = H2) \<or> (lvl = H3 \<and> lvl' = H2))
               \<and> (i + 2 < length headings \<longrightarrow> lvl' \<noteq> lvl
                    \<longrightarrow> h_level (s' (headings ! (i + 1))) \<noteq> h_level (s (headings ! (i + 1)))
                    \<longrightarrow> h_level (s' (headings ! (i + 2))) = h_level (s (headings ! (i + 2))))
            else lvl' = lvl"
proof -
  let ?s' = "fst (refine_heading_hierarchy s headings)"
  let ?L = "\<lambda>j. h_level (s (headings ! j))"
  let ?L' = "\<lambda>j. h_level (?s' (headings ! j))"
  let ?a = "\<lambda>j. 15 \<le> score_h2 (h_scores (s (headings ! j)))"
  let ?b = "\<lambda>j. score_h3 (h_scores (s (headings ! j))) \<le> score_h2 (h_scores (s (headings ! j)))"
  have E: "?L' j = (if 0 < j \<and> j + 1 < length headings then
        (if ?L j = H1 \<and> ?L' (j - 1) = H3 \<and> ?L (j + 1) = H3 \<and> ?a j then H2
         else if ?L j = H3 \<and> ?L' (j - 1) = H2 \<and> ?L (j + 1) = H2 \<and> ?b j then H2
         else ?L j)
      else ?L j)" if "j < length headings" for j
    by (rule refined_level [OF assms(1) that])
  show ?thesis
  proof (cases "0 < i \<and> i + 1 < length headings")
    case False
    then have eq: "?L' i = ?L i" using E [OF assms(2)] by simp
    show ?thesis unfolding Let_def by (simp only: False if_False eq)
  next
    case True
    have Ei: "?L' i = (if ?L i = H1 \<and> ?L' (i - 1) = H3 \<and> ?L (i + 1) = H3 \<and> ?a i then H2
         else if ?L i = H3 \<and> ?L' (i - 1) = H2 \<and> ?L (i + 1) = H2 \<and> ?b i then H2
         else ?L i)"
      using E [OF assms(2)] True by simp
    have c1: "(?L i = H1 \<and> ?L' i = H2)
                = (?L i = H1 \<and> ?L' (i - 1) = H3 \<and> ?L (i + 1) = H3 \<and> ?a i)"
      by (subst Ei) auto
    have c2: "(?L i = H3 \<and> ?L' i = H2)
                = (?L i = H3 \<and> ?L' (i - 1) = H2 \<and> ?L (i + 1) = H2 \<and> ?b i)"
      by (subst Ei) auto
    have c3: "?L' i = ?L i \<or> (?L i = H1 \<and> ?L' i = H2) \<or> (?L i = H3 \<and> ?L' i = H2)"
      by (subst (1 2 3) Ei) auto
    have c4: "?L' (i + 2) = ?L (i + 2)"
      if far: "i + 2 < length headings" and ch0: "?L' i \<noteq> ?L i" and ch1: "?L' (i + 1) \<noteq> ?L (i + 1)"
    proof -
      have l2: "?L' i = H2" using c3 ch0 by blast
      have E1: "?L' (i + 1) = (if ?L (i + 1) = H1 \<and> ?L' i = H3 \<and> ?L (i + 2) = H3 \<and> ?a (i + 1) then H2
         else if ?L (i + 1) = H3 \<and> ?L' i = H2 \<and> ?L (i + 2) = H2 \<and> ?b (i + 1) then H2
         else ?L (i + 1))"
        using E [of "i + 1"] far by (simp add: add.assoc)
      have n2: "?L (i + 2) = H2"
        using E1 ch1 l2 by (auto split: if_splits)
      have "?L' (i + 2) = (if 0 < i + 2 \<and> i + 2 + 1 < length headings then
        (if ?L (i + 2) = H1 \<and> ?L' (i + 2 - 1) = H3 \<and> ?L (i + 2 + 1) = H3 \<and> ?a (i + 2) then H2
         else if ?L (i + 2) = H3 \<and> ?L' (i + 2 - 1) = H2 \<and> ?L (i + 2 + 1) = H2 \<and> ?b (i + 2) then H2
         else ?L (i + 2))
      else ?L (i + 2))"
        by (rule E [OF far])
      then show ?thesis using n2 by simp
    qed
    show ?thesis
      unfolding Let_def using True c1 c2 c3 c4 by simp
  qed
qed

text \<open>
  The theorem at the third of four headings classified H3, H1, H3, H2.  The pass demotes
  the second to H2, then reads that H2 as the previous level of the third and promotes
  it: the levels come out as H3, H2, H2, H2.
\<close>

theorem refine_heading_hierarchy_rule_witness:
  "distinct (snd (allocate cascade_headings))
   \<and> 2 < length (snd (allocate cascade_headings))
   \<and> map h_level (deref (refine_heading_hierarchy (fst (allocate cascade_headings))
                                                    (snd (allocate cascade_headings))))
       = [H3, H2, H2, H2]
   \<and> h_level (fst (refine_heading_hierarchy (fst (allocate cascade_headings))
                      (snd (allocate cascade_headings))) (snd (allocate cascade_headings) ! 2)) = H2"
proof -
  have d: "distinct (snd (allocate cascade_headings))"
    by (simp add: allocate_def)
  have l: "2 < length (snd (allocate cascade_headings))"
    by (simp add: allocate_def cascade_headings_def)
  have ev: "map h_level (deref (refine_heading_hierarchy (fst (allocate cascade_headings))
                                                    (snd (allocate cascade_headings))))
       = [H3, H2, H2, H2]"
    by code_simp
  have r: "snd (allocate cascade_headings) = [0, 1, 2, 3]"
    by code_simp
  have "h_level (fst (refine_heading_hierarchy (fst (allocate cascade_headings))
                      (snd (allocate cascade_headings))) (snd (allocate cascade_headings) ! 2)) = H2"
    using refine_heading_hierarchy_rule [OF d l, of "fst (allocate cascade_headings)"] ev
    by (simp add: deref_def r refine_heading_hierarchy_def)
  with d l ev show ?thesis by blast
qed

section \<open>Properties of the title selector\<close>

lemma list_max_Max:
  assumes "xs \<noteq> []"
  shows "list_max xs = Max (set xs)"
proof -
  obtain x ys where xs: "xs = x # ys" using assms by (cases xs) auto
  have "foldl max x ys = fold max ys x"
    by (simp add: foldl_conv_fold max.commute)
  with Max.set_eq_fold [of x ys] show ?thesis
    by (simp add: xs list_max_def)
qed

lemma title_step_cases:
  "title_step best b =
     (if (5 \<le> length (strip (block_text b)) \<and> length (strip (block_text b)) \<le> 150
          \<and> \<not> any_in title_noise_patterns (lower (strip (block_text b))))
         \<and> snd best < title_score b (strip (block_text b))
      then (strip (block_text b), title_score b (strip (block_text b))) else best)"
  unfolding title_step_def Let_def by (simp add: not_less not_le)

lemma title_fold:
  fixes P :: "text_block \<Rightarrow> bool" and sc :: "text_block \<Rightarrow> rat"
  assumes step: "\<And>best b. title_step best b
        = (if P b \<and> snd best < sc b then (strip (block_text b), sc b) else best)"
  shows "((\<forall>b \<in> set (filter P bs). sc b \<le> s0) \<and> foldl title_step (t0, s0) bs = (t0, s0))
       \<or> (\<exists>A w B. filter P bs = A @ w # B
             \<and> foldl title_step (t0, s0) bs = (strip (block_text w), sc w)
             \<and> s0 < sc w \<and> (\<forall>a \<in> set A. sc a < sc w) \<and> (\<forall>b \<in> set B. sc b \<le> sc w))"
proof (induction bs rule: rev_induct)
  case Nil
  show ?case by simp
next
  case (snoc x xs)
  show ?case
  proof (cases "P x")
    case False
    then have "foldl title_step (t0, s0) (xs @ [x]) = foldl title_step (t0, s0) xs"
      "filter P (xs @ [x]) = filter P xs"
      by (simp_all add: step)
    then show ?thesis using snoc by simp
  next
    case Px: True
    then have f: "filter P (xs @ [x]) = filter P xs @ [x]" by simp
    from snoc show ?thesis
    proof (elim disjE conjE exE)
      assume le: "\<forall>b \<in> set (filter P xs). sc b \<le> s0"
        and st: "foldl title_step (t0, s0) xs = (t0, s0)"
      show ?thesis
      proof (cases "s0 < sc x")
        case True
        have "foldl title_step (t0, s0) (xs @ [x]) = (strip (block_text x), sc x)"
          using st True Px by (simp add: step)
        moreover have "\<forall>a \<in> set (filter P xs). sc a < sc x"
          using le True by auto
        moreover have "filter P (xs @ [x]) = filter P xs @ x # []" using f by simp
        ultimately show ?thesis using True by (metis empty_iff list.set(1))
      next
        case False
        have "foldl title_step (t0, s0) (xs @ [x]) = (t0, s0)"
          using st False by (simp add: step)
        moreover have "\<forall>b \<in> set (filter P (xs @ [x])). sc b \<le> s0"
          using le False f by auto
        ultimately show ?thesis by blast
      qed
    next
      fix A w B
      assume d: "filter P xs = A @ w # B"
        and st: "foldl title_step (t0, s0) xs = (strip (block_text w), sc w)"
        and s0: "s0 < sc w"
        and a: "\<forall>a \<in> set A. sc a < sc w" and b: "\<forall>b \<in> set B. sc b \<le> sc w"
      show ?thesis
      proof (cases "sc w < sc x")
        case True
        have "foldl title_step (t0, s0) (xs @ [x]) = (strip (block_text x), sc x)"
          using st True Px by (simp add: step)
        moreover have "\<forall>a \<in> set (A @ w # B). sc a < sc x"
          using a b True by force
        moreover have "filter P (xs @ [x]) = (A @ w # B) @ x # []" using f d by simp
        moreover have "s0 < sc x" using s0 True by simp
        ultimately show ?thesis by (metis empty_iff list.set(1))
      next
        case False
        have "foldl title_step (t0, s0) (xs @ [x]) = (strip (block_text w), sc w)"
          using st False by (simp add: step)
        moreover have "\<forall>b \<in> set (B @ [x]). sc b \<le> sc w"
          using b False by auto
        moreover have "filter P (xs @ [x]) = A @ w # (B @ [x])" using f d by simp
        ultimately show ?thesis using s0 a by blast
      qed
    qed
  qed
qed


text \<open>
  C3, as amended.  The selector looks at the spans of page number at most 2 and, among
  them, at those whose font size is at least 95% of their maximum.  It rejects a span
  whose stripped text has fewer than 5 or more than 150 characters or contains, in lower
  case, one of the markers page, figure, table, abstract, introduction, www., http, @,
  copyright and the copyright sign (not \<open>et al.\<close> and \<open>ibid\<close> of the filter's list).
  When a survivor has a positive score the title is the stripped text of the first
  survivor of highest score.  Otherwise it is the stripped text of the first
  size-qualifying span, or \<open>Untitled Document\<close> when there is none or that text is empty;
  without any span on these pages it is \<open>Untitled Document\<close>.
\<close>

theorem identify_document_title_rule:
  "let cands = filter (\<lambda>b. page_number b \<le> 2) text_blocks;
       large = filter (\<lambda>b. font_size b \<ge> Max (set (map font_size cands)) * (95 / 100)) cands;
       surv = filter (\<lambda>b. 5 \<le> length (strip (block_text b)) \<and> length (strip (block_text b)) \<le> 150
                 \<and> \<not> any_in title_noise_patterns (lower (strip (block_text b)))) large;
       score = (\<lambda>b. title_score b (strip (block_text b)));
       title = identify_document_title text_blocks
   in (cands = [] \<longrightarrow> title = ''Untitled Document'')
    \<and> (cands \<noteq> [] \<longrightarrow>
         ((\<exists>b \<in> set surv. 0 < score b) \<longrightarrow>
            (\<exists>A w B. surv = A @ w # B \<and> title = strip (block_text w)
                \<and> (\<forall>a \<in> set A. score a < score w) \<and> (\<forall>b \<in> set B. score b \<le> score w)))
       \<and> ((\<forall>b \<in> set surv. score b \<le> 0) \<longrightarrow>
            title = (if large \<noteq> [] \<and> strip (block_text (hd large)) \<noteq> []
                     then strip (block_text (hd large)) else ''Untitled Document'')))"
proof -
  let ?cands = "filter (\<lambda>b. page_number b \<le> 2) text_blocks"
  let ?large = "filter (\<lambda>b. font_size b \<ge> Max (set (map font_size ?cands)) * (95 / 100)) ?cands"
  let ?P = "\<lambda>b. 5 \<le> length (strip (block_text b)) \<and> length (strip (block_text b)) \<le> 150
                 \<and> \<not> any_in title_noise_patterns (lower (strip (block_text b)))"
  let ?surv = "filter ?P ?large"
  let ?sc = "\<lambda>b. title_score b (strip (block_text b))"
  let ?title = "identify_document_title text_blocks"
  let ?fb = "if ?large \<noteq> [] \<and> strip (block_text (hd ?large)) \<noteq> []
             then strip (block_text (hd ?large)) else ''Untitled Document''"
  have empty: "?title = ''Untitled Document''" if "?cands = []"
    using that by (simp add: identify_document_title_def)
  have nonempty:
    "((\<exists>b \<in> set ?surv. 0 < ?sc b) \<longrightarrow>
            (\<exists>A w B. ?surv = A @ w # B \<and> ?title = strip (block_text w)
                \<and> (\<forall>a \<in> set A. ?sc a < ?sc w) \<and> (\<forall>b \<in> set B. ?sc b \<le> ?sc w)))
       \<and> ((\<forall>b \<in> set ?surv. ?sc b \<le> 0) \<longrightarrow> ?title = ?fb)"
    if ne: "?cands \<noteq> []"
  proof -
    have tb: "text_blocks \<noteq> []" using ne by auto
    have mx: "list_max (map font_size ?cands) = Max (set (map font_size ?cands))"
      by (rule list_max_Max) (use ne in simp)
    define best where "best = foldl title_step ([], 0) ?large"
    have t: "?title = (let best_title = (if fst best = [] \<and> ?large \<noteq> []
                                         then strip (block_text (hd ?large)) else fst best)
                       in if best_title \<noteq> [] then best_title else ''Untitled Document'')"
      using tb ne unfolding identify_document_title_def Let_def mx best_def by simp
    from title_fold [of ?P ?sc ?large 0 "[]", OF title_step_cases]
    consider (none) "\<forall>b \<in> set ?surv. ?sc b \<le> 0" "best = ([], 0)"
      | (some) A w B where "?surv = A @ w # B" "best = (strip (block_text w), ?sc w)"
          "0 < ?sc w" "\<forall>a \<in> set A. ?sc a < ?sc w" "\<forall>b \<in> set B. ?sc b \<le> ?sc w"
      unfolding best_def by blast
    then show ?thesis
    proof cases
      case none
      have "?title = ?fb" using t none(2) by (simp add: Let_def)
      moreover have "\<not> (\<exists>b \<in> set ?surv. 0 < ?sc b)" using none(1) by (meson not_less)
      ultimately show ?thesis by blast
    next
      case some
      have "w \<in> set ?surv" using some(1) by simp
      then have "5 \<le> length (strip (block_text w))" by simp
      then have "strip (block_text w) \<noteq> []" by auto
      then have "?title = strip (block_text w)" using t some(2) by (simp add: Let_def)
      moreover have "\<not> (\<forall>b \<in> set ?surv. ?sc b \<le> 0)"
        using \<open>w \<in> set ?surv\<close> some(3) by (meson not_less)
      ultimately show ?thesis using some(1,4,5) by blast
    qed
  qed
  show ?thesis
    unfolding Let_def using empty nonempty by blast
qed

text \<open>
  The theorem at a document of two spans of 24 points: both are on pages 1 and 2 and of
  the largest size, the second has a positive score, and it gives the title.
\<close>

theorem identify_document_title_rule_witness:
  "filter (\<lambda>b. page_number b \<le> 2) doc_title \<noteq> []
   \<and> 0 < title_score (doc_title ! 1) (strip (block_text (doc_title ! 1)))
   \<and> identify_document_title doc_title = ''Verified Outlines''"
proof -
  have a: "filter (\<lambda>b. page_number b \<le> 2) doc_title \<noteq> []"
    by code_simp
  have b: "0 < title_score (doc_title ! 1) (strip (block_text (doc_title ! 1)))"
    by code_simp
  have c: "identify_document_title doc_title = ''Verified Outlines''"
    by code_simp
  from identify_document_title_rule [of doc_title] a b c show ?thesis
    by blast
qed

text \<open>
  C3 as stated fails.  Of the two spans the first, bold and at the top of page 1, has the
  higher score, and it contains no marker of the filter's list, so by the stated rule
  its text is the title.  The selector rejects it for the marker \<open>introduction\<close> and
  returns the text of the second.
\<close>

theorem title_noise_counterexample:
  "identify_document_title doc_title = ''Verified Outlines''
   \<and> stated_title doc_title = ''Introduction to Logic''
   \<and> \<not> any_in noise_patterns (lower ''Introduction to Logic'')
   \<and> any_in title_noise_patterns (lower ''Introduction to Logic'')
   \<and> title_score (doc_title ! 0) ''Introduction to Logic'' = 117
   \<and> title_score (doc_title ! 1) ''Verified Outlines'' = 71"
  by code_simp

section \<open>Properties of the outline\<close>

lemma deref_allocate: "deref (allocate hs) = hs"
  by (simp add: deref_def allocate_def map_nth)

lemma refine_keeps_order:
  "map heading_order (deref (refine_heading_hierarchy s refs)) = map heading_order (deref (s, refs))"
proof -
  have "fst (refine_heading_hierarchy s refs) a
      = (s a)\<lparr>h_level := h_level (fst (refine_heading_hierarchy s refs) a)\<rparr>" for a
  proof (cases "length refs \<le> 1")
    case True
    then show ?thesis by (simp add: refine_heading_hierarchy_def)
  next
    case False
    then have "fst (refine_heading_hierarchy s refs) = fold (refine_step refs) [0..<length refs] s"
      by (simp add: refine_heading_hierarchy_def)
    then show ?thesis
      using fold_refine_level_only [of refs "[0..<length refs]" s a] by simp
  qed
  then have "heading_order (fst (refine_heading_hierarchy s refs) a) = heading_order (s a)" for a
    unfolding heading_order_def
    by (metis classified_heading.select_convs(3) classified_heading.select_convs(4)
        classified_heading.surjective classified_heading.update_convs(1))
  moreover have "snd (refine_heading_hierarchy s refs) = refs"
    by (simp add: refine_heading_hierarchy_def)
  ultimately show ?thesis by (simp add: deref_def)
qed

text \<open>The classified headings of the script pipeline are in the order of page and position.\<close>

lemma classify_heading_levels_sorted:
  assumes "classify_heading_levels cands fa = Inr cls"
  shows "sorted (map heading_order cls)"
proof (cases "cands = []")
  case True
  then show ?thesis using assms by (auto simp: classify_heading_levels_def)
next
  case False
  then obtain hs where l: "classify_loop (body_font_size fa) cands = Inr hs"
    and c: "cls = deref (refine_heading_hierarchy
               (fst (allocate (sort_key heading_order hs))) (snd (allocate (sort_key heading_order hs))))"
    using assms
    by (auto simp: classify_heading_levels_def split: sum.splits prod.splits)
  have "map heading_order cls = map heading_order (sort_key heading_order hs)"
    unfolding c refine_keeps_order using deref_allocate [of "sort_key heading_order hs"] by simp
  then show ?thesis by simp
qed

lemma length_slice_to: "0 \<le> m \<Longrightarrow> int (length (slice_to m xs)) \<le> m"
  by (simp add: slice_to_def)


text \<open>
  C6, as amended.  The script pipeline of \<open>main.py\<close> keeps at most 20 headings, a limit
  written into the source that no configuration changes: they are the first 20 of the
  classified headings, which stand in the order of page and position, so the earliest
  ones and not the highest-scored.  The configured maximum, whose default is 50 in both
  configuration modules, bounds the outline of the module pipeline of \<open>core.py\<close>
  whenever it is not negative.
\<close>

theorem outline_length_limit:
  "(extract_headings_from_blocks text_blocks = Inr out \<longrightarrow>
      length (outline_headings out) \<le> 20
      \<and> (text_blocks \<noteq> [] \<longrightarrow>
           (\<exists>cands cls.
              filter_heading_candidates text_blocks (analyze_font_styles text_blocks) = Inr cands
              \<and> classify_heading_levels cands (analyze_font_styles text_blocks) = Inr cls
              \<and> sorted (map heading_order cls)
              \<and> outline_headings out = map final_of (take 20 cls))))
   \<and> max_headings_per_document default_processing_limits = 50
   \<and> MAX_HEADINGS_PER_DOCUMENT default_config = 50
   \<and> (identify_headings cfg blocks = Inr (title, hs) \<and> 0 \<le> MAX_HEADINGS_PER_DOCUMENT cfg \<longrightarrow>
        int (length hs) \<le> MAX_HEADINGS_PER_DOCUMENT cfg)"
proof (intro conjI impI)
  assume e: "extract_headings_from_blocks text_blocks = Inr out"
  show "length (outline_headings out) \<le> 20"
    using e by (auto simp: extract_headings_from_blocks_def Let_def split: if_splits sum.splits)
  show "\<exists>cands cls.
            filter_heading_candidates text_blocks (analyze_font_styles text_blocks) = Inr cands
            \<and> classify_heading_levels cands (analyze_font_styles text_blocks) = Inr cls
            \<and> sorted (map heading_order cls)
            \<and> outline_headings out = map final_of (take 20 cls)"
    if ne: "text_blocks \<noteq> []"
  proof -
    from ne obtain cands cls where
      f: "filter_heading_candidates text_blocks (analyze_font_styles text_blocks) = Inr cands"
      and c: "classify_heading_levels cands (analyze_font_styles text_blocks) = Inr cls"
      and o: "outline_headings out = map final_of (take 20 cls)"
      using e by (auto simp: extract_headings_from_blocks_def Let_def split: sum.splits)
    from classify_heading_levels_sorted [OF c] f c o show ?thesis by blast
  qed
next
  show "max_headings_per_document default_processing_limits = 50"
    by (simp add: default_processing_limits_def)
  show "MAX_HEADINGS_PER_DOCUMENT default_config = 50"
    by (simp add: default_config_def)
next
  assume a: "identify_headings cfg blocks = Inr (title, hs) \<and> 0 \<le> MAX_HEADINGS_PER_DOCUMENT cfg"
  then show "int (length hs) \<le> MAX_HEADINGS_PER_DOCUMENT cfg"
    by (auto simp: identify_headings_def Let_def length_slice_to
        split: if_splits list.splits sum.splits)
qed


text \<open>
  The theorem at a document of three headings, which the script pipeline all keeps, and
  at the default configuration of the module pipeline.
\<close>

theorem outline_length_limit_witness:
  "(\<exists>out. extract_headings_from_blocks doc_three = Inr out \<and> length (outline_headings out) = 3
          \<and> length (outline_headings out) \<le> 20)
   \<and> doc_three \<noteq> []
   \<and> 0 \<le> MAX_HEADINGS_PER_DOCUMENT default_config
   \<and> (\<exists>hs. identify_headings default_config doc_core = Inr (''Annual Report'', hs)
          \<and> int (length hs) \<le> MAX_HEADINGS_PER_DOCUMENT default_config)"
proof -
  have "case extract_headings_from_blocks doc_three of
          Inl e \<Rightarrow> False | Inr out \<Rightarrow> length (outline_headings out) = 3"
    by code_simp
  then obtain out where o: "extract_headings_from_blocks doc_three = Inr out"
    and l: "length (outline_headings out) = 3"
    by (cases "extract_headings_from_blocks doc_three") auto
  have "case identify_headings default_config doc_core of
          Inl e \<Rightarrow> False | Inr r \<Rightarrow> fst r = ''Annual Report''"
    by code_simp
  then obtain hs where h: "identify_headings default_config doc_core = Inr (''Annual Report'', hs)"
    by (cases "identify_headings default_config doc_core") auto
  have n: "doc_three \<noteq> []" by (simp add: doc_three_def)
  have m: "0 \<le> MAX_HEADINGS_PER_DOCUMENT default_config" by (simp add: default_config_def)
  from outline_length_limit [of doc_three out default_config doc_core "''Annual Report''" hs]
  have "length (outline_headings out) \<le> 20"
    and "int (length hs) \<le> MAX_HEADINGS_PER_DOCUMENT default_config"
    using o h m by blast+
  with o l h n m show ?thesis by blast
qed

text \<open>
  C6 as stated fails for the script pipeline: with the maximum configured as 2, a valid
  value, the outline of the document of three headings still has 3.
\<close>

theorem outline_limit_config_counterexample:
  "(case extract_headings_from_blocks doc_three of
      Inl e \<Rightarrow> False
    | Inr out \<Rightarrow> map out_text (outline_headings out) = [''Scope'', ''Methods'', ''Findings''])
   \<and> max_headings_per_document (default_processing_limits\<lparr>max_headings_per_document := 2\<rparr>) = 2
   \<and> (2 :: int) < int (length [''Scope'', ''Methods'', ''Findings''])"
  by code_simp

text \<open>The outline of the script pipeline is in the order of page and vertical position.\<close>

lemma script_outline_sorted:
  assumes "extract_headings_from_blocks text_blocks = Inr out"
  shows "sorted (map (\<lambda>h. (out_page h, out_y h)) (outline_headings out))"
proof (cases "text_blocks = []")
  case True
  then show ?thesis using assms by (auto simp: extract_headings_from_blocks_def)
next
  case False
  then obtain cands cls where
    c: "classify_heading_levels cands (analyze_font_styles text_blocks) = Inr cls"
    and o: "outline_headings out = map final_of (take 20 cls)"
    using assms by (auto simp: extract_headings_from_blocks_def Let_def split: sum.splits)
  have "map (\<lambda>h. (out_page h, out_y h)) (outline_headings out) = take 20 (map heading_order cls)"
    by (simp add: o final_of_def heading_order_def take_map o_def)
  then show ?thesis
    using classify_heading_levels_sorted [OF c] by (simp add: sorted_wrt_take)
qed

text \<open>
  C7 at the module pipeline.  In the report of \<open>doc_core\<close> the section \<open>Alpha section\<close>
  stands at the vertical position 100 and \<open>Beta section\<close> at 200 of the same page.  The
  outline lists \<open>Beta section\<close> first: \<open>_identify_headings\<close> sorts by page and decreasing
  font size, under the comment \<open>Sort by page and position\<close>.
\<close>

theorem module_outline_order:
  "identify_headings default_config doc_core
     = Inr (''Annual Report'',
            [\<lparr>ch_level = H1, ch_text = ''Beta section'', ch_page = 0\<rparr>,
             \<lparr>ch_level = H1, ch_text = ''Alpha section'', ch_page = 0\<rparr>])
   \<and> map (\<lambda>b. (cb_text b, cb_page b, fst (snd (cb_bbox b)))) doc_core
     = [(''Annual Report'', 0, 40), (''Alpha section'', 0, 100), (''plain body text'', 0, 130),
        (''Beta section'', 0, 200), (''more plain body text'', 0, 230)]"
  by code_simp

text \<open>
  C8.  On the empty sequence of blocks neither pipeline fails.  The module pipeline
  returns the title \<open>Untitled Document\<close> and no heading, and so does the title selector of
  the script pipeline; but \<open>_extract_headings_from_blocks\<close> returns before it calls the
  selector, with the empty string as the title.
\<close>

theorem empty_document_outline:
  "extract_headings_from_blocks [] = Inr \<lparr>outline_title = [], outline_headings = []\<rparr>
   \<and> identify_document_title [] = ''Untitled Document''
   \<and> identify_headings cfg [] = Inr (''Untitled Document'', [])"
  by (simp add: extract_headings_from_blocks_def identify_document_title_def identify_headings_def)

section \<open>Properties of the text normalisation\<close>

lemma normalize_width_keeps_diacritics:
  "filter arabic_diacritic (normalize_width t) = filter arabic_diacritic t"
proof (induction t)
  case Nil
  show ?case by (simp add: normalize_width_def)
next
  case (Cons c t)
  have "arabic_diacritic (if 0xFF01 \<le> c \<and> c \<le> 0xFF5E then c - 0xFEE0 else c) = arabic_diacritic c"
    by (auto simp: arabic_diacritic_def)
  moreover have "arabic_diacritic c \<Longrightarrow> (if 0xFF01 \<le> c \<and> c \<le> 0xFF5E then c - 0xFEE0 else c) = c"
    by (auto simp: arabic_diacritic_def)
  ultimately show ?case
    using Cons by (simp add: normalize_width_def)
qed

text \<open>
  C9.  Both normalisers detect the script on the normalised, whitespace-collapsed and
  stripped text, and strip diacritics from that text only on the branch of an RTL
  script.  In \<open>src/utils/multilingual.py\<close> that branch is the script \<open>arabic\<close> (no Hebrew
  pattern exists there) and removes the Arabic marks; for any other script, \<open>unknown\<close>
  included, the text is returned as it is.  In \<open>docudots_module/multilingual.py\<close> the
  branch is \<open>arabic\<close> or \<open>hebrew\<close>; for any other script the text is returned as it is or
  with its full-width characters narrowed, and its Arabic marks are those of the text
  before, in the same order.  The empty text is returned unchanged.
\<close>

theorem diacritics_stripped_only_for_rtl:
  "(let t3 = ustrip (collapse_whitespace (nfc u t))
    in t \<noteq> [] \<longrightarrow>
         (detect_script t3 \<noteq> ''arabic'' \<longrightarrow> normalize_text u t = t3)
       \<and> (detect_script t3 = ''arabic'' \<longrightarrow>
            normalize_text u t = filter (\<lambda>c. \<not> arabic_diacritic c) t3))
   \<and> (let n = ustrip (collapse_whitespace (nfkc u t));
           script = module_detect_script u n
       in t \<noteq> [] \<longrightarrow>
            (script \<noteq> ''arabic'' \<and> script \<noteq> ''hebrew'' \<longrightarrow>
               (module_normalize_text u t = n \<or> module_normalize_text u t = normalize_width n)
               \<and> filter arabic_diacritic (module_normalize_text u t) = filter arabic_diacritic n)
          \<and> (script = ''arabic'' \<or> script = ''hebrew'' \<longrightarrow>
               module_normalize_text u t = remove_diacritics u n))
   \<and> normalize_text u [] = [] \<and> module_normalize_text u [] = []"
proof -
  have a: "normalize_text u t = ustrip (collapse_whitespace (nfc u t))"
    if "t \<noteq> []" "detect_script (ustrip (collapse_whitespace (nfc u t))) \<noteq> ''arabic''"
    using that by (simp add: normalize_text_def Let_def)
  have b: "normalize_text u t = filter (\<lambda>c. \<not> arabic_diacritic c) (ustrip (collapse_whitespace (nfc u t)))"
    if "t \<noteq> []" "detect_script (ustrip (collapse_whitespace (nfc u t))) = ''arabic''"
    using that by (simp add: normalize_text_def Let_def)
  let ?n = "ustrip (collapse_whitespace (nfkc u t))"
  let ?script = "module_detect_script u ?n"
  have c: "module_normalize_text u t = ?n \<or> module_normalize_text u t = normalize_width ?n"
    if "t \<noteq> []" "?script \<noteq> ''arabic'' \<and> ?script \<noteq> ''hebrew''"
    using that by (simp add: module_normalize_text_def Let_def)
  have d: "filter arabic_diacritic (module_normalize_text u t) = filter arabic_diacritic ?n"
    if "t \<noteq> []" "?script \<noteq> ''arabic'' \<and> ?script \<noteq> ''hebrew''"
    using c [OF that] normalize_width_keeps_diacritics [of ?n] by auto
  have e: "module_normalize_text u t = remove_diacritics u ?n"
    if "t \<noteq> []" "?script = ''arabic'' \<or> ?script = ''hebrew''"
    using that by (simp add: module_normalize_text_def Let_def)
  have f: "normalize_text u [] = []" "module_normalize_text u [] = []"
    by (simp_all add: normalize_text_def module_normalize_text_def)
  show ?thesis
    unfolding Let_def using a b c d e f by blast
qed

text \<open>
  The theorem at a Latin text that ends in an Arabic mark: its script is \<open>latin\<close> for both
  normalisers, and both keep the mark.
\<close>

theorem diacritics_stripped_only_for_rtl_witness:
  "latin_with_mark \<noteq> []
   \<and> detect_script (ustrip (collapse_whitespace (nfc plain_tables latin_with_mark))) = ''latin''
   \<and> module_detect_script plain_tables
        (ustrip (collapse_whitespace (nfkc plain_tables latin_with_mark))) = ''latin''
   \<and> normalize_text plain_tables latin_with_mark = [0x68, 0x69, 0x64B]
   \<and> filter arabic_diacritic (module_normalize_text plain_tables latin_with_mark) = [0x64B]"
proof -
  have 1: "latin_with_mark \<noteq> []" by (simp add: latin_with_mark_def)
  have 2: "detect_script (ustrip (collapse_whitespace (nfc plain_tables latin_with_mark))) = ''latin''"
    by (simp add: latin_with_mark_def plain_tables_def detect_script_def module_detect_script_def
        script_patterns_def module_script_patterns_def script_to_language_def in_class_def
        ustrip_def collapse_whitespace_def uspace_def arabic_diacritic_def)
  have 3: "module_detect_script plain_tables
        (ustrip (collapse_whitespace (nfkc plain_tables latin_with_mark))) = ''latin''"
    by (simp add: latin_with_mark_def plain_tables_def detect_script_def module_detect_script_def
        script_patterns_def module_script_patterns_def script_to_language_def in_class_def
        ustrip_def collapse_whitespace_def uspace_def arabic_diacritic_def)
  have 4: "ustrip (collapse_whitespace (nfc plain_tables latin_with_mark)) = [0x68, 0x69, 0x64B]"
    by (simp add: latin_with_mark_def plain_tables_def detect_script_def module_detect_script_def
        script_patterns_def module_script_patterns_def script_to_language_def in_class_def
        ustrip_def collapse_whitespace_def uspace_def arabic_diacritic_def)
  have 5: "filter arabic_diacritic (ustrip (collapse_whitespace (nfkc plain_tables latin_with_mark)))
      = [0x64B]"
    by (simp add: latin_with_mark_def plain_tables_def detect_script_def module_detect_script_def
        script_patterns_def module_script_patterns_def script_to_language_def in_class_def
        ustrip_def collapse_whitespace_def uspace_def arabic_diacritic_def)
  note t = diacritics_stripped_only_for_rtl [of plain_tables latin_with_mark, unfolded Let_def]
  have "normalize_text plain_tables latin_with_mark
          = ustrip (collapse_whitespace (nfc plain_tables latin_with_mark))"
    using t 1 2 by simp
  moreover have "filter arabic_diacritic (module_normalize_text plain_tables latin_with_mark)
      = filter arabic_diacritic (ustrip (collapse_whitespace (nfkc plain_tables latin_with_mark)))"
    using t 1 3 by simp
  ultimately show ?thesis using 1 2 3 4 5 by simp
qed

end
